theory Spec2Isabelle
  imports Complex_Main "HOL-Library.Word"
begin

unbundle bit_operations_syntax

section \<open>Go values\<close>

type_synonym byte = "8 word"
type_synonym uint16 = "16 word"
type_synonym int16 = "16 word"

text \<open>
  A Go \<^verbatim>\<open>float64\<close> is an IEEE 754 binary64 number. Every finite binary64 number is a
  real number, and every operation of the scanner rounds the exact result to the nearest
  binary64 number, ties to even. The values the scanner computes come from 8 and 16 bit
  fields, so they stay far inside the normal range: no operation overflows, underflows or
  produces a NaN, and the rounding \<open>fl\<close> below (53 significant bits, exponent not clamped)
  is the one the hardware performs on them. The two zeros of binary64 are one number here;
  Go compares them equal.
\<close>

type_synonym float64 = real

function halvings :: "real \<Rightarrow> nat" where
  "halvings x = (if x < 2 then 0 else Suc (halvings (x / 2)))"
  by pat_completeness auto
termination
proof (relation "measure (\<lambda>x. nat \<lfloor>x\<rfloor>)")
  show "wf (measure (\<lambda>x::real. nat \<lfloor>x\<rfloor>))" by simp
next
  fix x :: real
  assume "\<not> x < 2"
  then have "x / 2 \<le> x - 1" by simp
  then have "\<lfloor>x / 2\<rfloor> \<le> \<lfloor>x - 1\<rfloor>" by (rule floor_mono)
  moreover have "1 \<le> \<lfloor>x\<rfloor>" using \<open>\<not> x < 2\<close> by linarith
  ultimately show "(x / 2, x) \<in> measure (\<lambda>x. nat \<lfloor>x\<rfloor>)" by simp
qed

function doublings :: "real \<Rightarrow> nat" where
  "doublings x = (if x \<le> 0 \<or> 1 \<le> x then 0 else Suc (doublings (2 * x)))"
  by pat_completeness auto
termination
proof (relation "measure (\<lambda>x. nat \<lceil>1 / x\<rceil>)")
  show "wf (measure (\<lambda>x::real. nat \<lceil>1 / x\<rceil>))" by simp
next
  fix x :: real
  assume "\<not> (x \<le> 0 \<or> 1 \<le> x)"
  then have x: "0 < x" "x < 1" by simp_all
  then have one: "1 < 1 / x" by simp
  then have two: "2 \<le> \<lceil>1 / x\<rceil>" by linarith
  have "1 / x \<le> of_int \<lceil>1 / x\<rceil>" by (rule le_of_int_ceiling)
  then have "1 / (2 * x) \<le> of_int \<lceil>1 / x\<rceil> / 2" by simp
  also have "\<dots> \<le> of_int (\<lceil>1 / x\<rceil> - 1)" using two by simp
  finally have "\<lceil>1 / (2 * x)\<rceil> \<le> \<lceil>1 / x\<rceil> - 1" by (rule ceiling_le)
  then have "nat \<lceil>1 / (2 * x)\<rceil> < nat \<lceil>1 / x\<rceil>" using two by linarith
  then show "(2 * x, x) \<in> measure (\<lambda>x. nat \<lceil>1 / x\<rceil>)" by simp
qed

text \<open>The binary exponent of a positive number: \<open>2 powi expo x \<le> x < 2 powi (expo x + 1)\<close>.\<close>

definition expo :: "real \<Rightarrow> int" where
  "expo x = (if 1 \<le> x then int (halvings x) else - int (doublings x))"

text \<open>Rounding to the nearest integer, ties to the even one.\<close>

definition round_ne :: "real \<Rightarrow> int" where
  "round_ne x =
     (let f = \<lfloor>x\<rfloor>; d = x - of_int f
      in if d < 1 / 2 then f else if 1 / 2 < d then f + 1 else if even f then f else f + 1)"

definition fl :: "real \<Rightarrow> float64" where
  "fl x =
     (if x = 0 then 0
      else let e = expo \<bar>x\<bar> - 52 in of_int (round_ne (x / 2 powi e)) * 2 powi e)"

definition fadd :: "float64 \<Rightarrow> float64 \<Rightarrow> float64" where
  "fadd a b = fl (a + b)"

definition fsub :: "float64 \<Rightarrow> float64 \<Rightarrow> float64" where
  "fsub a b = fl (a - b)"

definition fmul :: "float64 \<Rightarrow> float64 \<Rightarrow> float64" where
  "fmul a b = fl (a * b)"

definition fdiv :: "float64 \<Rightarrow> float64 \<Rightarrow> float64" where
  "fdiv a b = fl (a / b)"

text \<open>
  \<^verbatim>\<open>math.Round\<close>: the nearest integer, halves away from zero. Its result is an integer,
  which the binary64 argument's format always holds, so no rounding follows.
\<close>

definition math_Round :: "float64 \<Rightarrow> float64" where
  "math_Round x = (if x < 0 then - of_int \<lfloor>- x + 1 / 2\<rfloor> else of_int \<lfloor>x + 1 / 2\<rfloor>)"

text \<open>\<^verbatim>\<open>float64(raw)\<close> of a 16 bit unsigned value is exact.\<close>

definition float64_of :: "uint16 \<Rightarrow> float64" where
  "float64_of raw = of_nat (unat raw)"


text \<open>A Go map read \<^verbatim>\<open>m[k]\<close> of a \<^verbatim>\<open>map[K]bool\<close>: \<^verbatim>\<open>false\<close> when the key is absent.\<close>

definition lookup_bool :: "('k \<rightharpoonup> bool) \<Rightarrow> 'k \<Rightarrow> bool" where
  "lookup_bool m k = (case m k of None \<Rightarrow> False | Some b \<Rightarrow> b)"

text \<open>A slice \<^verbatim>\<open>data[lo:hi]\<close>; the parser only takes it with \<open>hi \<le> length data\<close>.\<close>

definition slice :: "'a list \<Rightarrow> nat \<Rightarrow> nat \<Rightarrow> 'a list" where
  "slice xs lo hi = take (hi - lo) (drop lo xs)"

text \<open>\<^verbatim>\<open>binary.LittleEndian.Uint16\<close>: \<^verbatim>\<open>uint16(b[0]) | uint16(b[1])<<8\<close>.\<close>

definition LittleEndian_Uint16 :: "byte list \<Rightarrow> uint16" where
  "LittleEndian_Uint16 b = ucast (b ! 0) OR push_bit 8 (ucast (b ! 1))"

text \<open>The verb \<^verbatim>\<open>%d\<close> of \<^verbatim>\<open>fmt\<close> on a value that is not negative, and \<^verbatim>\<open>%02d\<close>.\<close>

definition digit_char :: "nat \<Rightarrow> char" where
  "digit_char d = ''0123456789'' ! d"

fun fmt_d :: "nat \<Rightarrow> string" where
  "fmt_d n = (if n < 10 then [digit_char n] else fmt_d (n div 10) @ [digit_char (n mod 10)])"

definition fmt_02d :: "nat \<Rightarrow> string" where
  "fmt_02d n = (let s = fmt_d n in replicate (2 - length s) (CHR ''0'') @ s)"

text \<open>
  \<^verbatim>\<open>strings.ToUpper\<close>. On a string of ASCII bytes it maps \<^verbatim>\<open>a\<close> to \<^verbatim>\<open>z\<close> onto
  \<^verbatim>\<open>A\<close> to \<^verbatim>\<open>Z\<close> and keeps every other byte. On any other string it maps the runes by
  the Unicode tables of the Go library, which the parameter \<open>unicode_upper\<close> stands for.
\<close>

definition is_ascii :: "char \<Rightarrow> bool" where
  "is_ascii c = ((of_char c :: nat) < 128)"

definition upper_ascii :: "char \<Rightarrow> char" where
  "upper_ascii c =
     (if (97::nat) \<le> of_char c \<and> (of_char c :: nat) \<le> 122 then char_of (of_char c - (32::nat)) else c)"

definition ToUpper :: "(string \<Rightarrow> string) \<Rightarrow> string \<Rightarrow> string" where
  "ToUpper unicode_upper s = (if list_all is_ascii s then map upper_ascii s else unicode_upper s)"

section \<open>Model registry\<close>

definition modelT :: byte where "modelT = 41"
definition modelTH :: byte where "modelTH = 42"
definition modelW :: byte where "modelW = 43"
definition modelT2 :: byte where "modelT2 = 47"
definition modelW3 :: byte where "modelW3 = 49"
definition modelSubHub :: byte where "modelSubHub = 52"
definition modelHub4G :: byte where "modelHub4G = 54"
definition modelTH2 :: byte where "modelTH2 = 56"
definition modelWPlus :: byte where "modelWPlus = 57"
definition modelDIY :: byte where "modelDIY = 58"
definition modelHubWF :: byte where "modelHubWF = 60"
definition modelBeeDar :: byte where "modelBeeDar = 63"

definition legacyTempModels :: "byte \<rightharpoonup> bool" where
  "legacyTempModels = [modelT \<mapsto> True, modelTH \<mapsto> True, modelW \<mapsto> True]"

definition noHumidityModels :: "byte \<rightharpoonup> bool" where
  "noHumidityModels = [modelT \<mapsto> True, modelT2 \<mapsto> True, modelW3 \<mapsto> True, modelSubHub \<mapsto> True]"

definition weightModels :: "byte \<rightharpoonup> bool" where
  "weightModels = [modelW \<mapsto> True, modelWPlus \<mapsto> True, modelW3 \<mapsto> True, modelDIY \<mapsto> True]"

definition fourCellWeightModels :: "byte \<rightharpoonup> bool" where
  "fourCellWeightModels = [modelW3 \<mapsto> True, modelDIY \<mapsto> True]"

definition swarmModels :: "byte \<rightharpoonup> bool" where
  "swarmModels = [modelT2 \<mapsto> True, modelTH2 \<mapsto> True]"

definition weightSentinels :: "uint16 \<rightharpoonup> bool" where
  "weightSentinels = [0x7FFF \<mapsto> True, 0x8005 \<mapsto> True, 0xFFFF \<mapsto> True]"

definition modelName :: "byte \<Rightarrow> string" where
  "modelName b =
     (if b = modelT then ''T''
      else if b = modelTH then ''TH''
      else if b = modelW then ''W''
      else if b = modelT2 then ''T2''
      else if b = modelW3 then ''W3''
      else if b = modelSubHub then ''SubHub''
      else if b = modelHub4G then ''Hub4G''
      else if b = modelTH2 then ''TH2''
      else if b = modelWPlus then ''W+''
      else if b = modelDIY then ''DIY''
      else if b = modelHubWF then ''HubWF''
      else if b = modelBeeDar then ''BeeDar''
      else ''?('' @ fmt_d (unat b) @ '')'')"

section \<open>Field decoder\<close>

definition parseTemperature :: "byte \<Rightarrow> uint16 \<Rightarrow> float64" where
  "parseTemperature model raw =
     (if raw = 0xFFFF then 0
      else if lookup_bool legacyTempModels model
        then fsub (fmul (fdiv (float64_of raw) 65536) 165) 40
      else fdiv (fsub (float64_of raw) 5000) 100)"

definition parseWeight :: "byte \<Rightarrow> uint16 \<Rightarrow> float64 \<times> bool" where
  "parseWeight model raw =
     (if \<not> lookup_bool weightModels model then (0, False)
      else if lookup_bool weightSentinels raw then (0, False)
      else let kg = fdiv (fsub (float64_of raw) 32767) 100 in (kg, True))"

section \<open>Advertisement parser\<close>

record Reading =
  MAC :: string
  RSSI :: int16
  Model :: string
  ModelByte :: byte
  FirmwareMinor :: byte
  FirmwareMajor :: byte
  Firmware :: string
  BatteryPercent :: int
  SampleCounter :: uint16
  TemperatureC :: float64
  TemperatureF :: float64
  HasHumidity :: bool
  HumidityPct :: int
  HasWeight :: bool
  WeightLeft :: float64
  WeightRight :: float64
  WeightTotal :: float64
  Has4Cell :: bool
  WeightLeft2 :: float64
  WeightRight2 :: float64
  HasRealtime :: bool
  RealtimeTempC :: float64
  RealtimeTempF :: float64
  RealtimeWeight :: float64
  HasSwarm :: bool
  SwarmState :: int
  Timestamp :: nat

text \<open>
  The composite literal \<^verbatim>\<open>&Reading{MAC: ..., RSSI: ..., Timestamp: time.Now()}\<close>: every
  other field has its zero value. The clock's reading is the parameter \<open>now\<close>.
\<close>

definition new_Reading :: "string \<Rightarrow> int16 \<Rightarrow> nat \<Rightarrow> Reading" where
  "new_Reading mac rssi now =
     \<lparr>MAC = mac, RSSI = rssi, Model = [], ModelByte = 0, FirmwareMinor = 0, FirmwareMajor = 0,
      Firmware = [], BatteryPercent = 0, SampleCounter = 0, TemperatureC = 0, TemperatureF = 0,
      HasHumidity = False, HumidityPct = 0, HasWeight = False, WeightLeft = 0, WeightRight = 0,
      WeightTotal = 0, Has4Cell = False, WeightLeft2 = 0, WeightRight2 = 0, HasRealtime = False,
      RealtimeTempC = 0, RealtimeTempF = 0, RealtimeWeight = 0, HasSwarm = False, SwarmState = 0,
      Timestamp = now\<rparr>"

text \<open>\<^verbatim>\<open>math.Round(x*100) / 100\<close> and \<^verbatim>\<open>math.Round(x*10) / 10\<close>, as the parser writes them.\<close>

definition round_100 :: "float64 \<Rightarrow> float64" where
  "round_100 x = fdiv (math_Round (fmul x 100)) 100"

definition round_10 :: "float64 \<Rightarrow> float64" where
  "round_10 x = fdiv (math_Round (fmul x 10)) 10"

text \<open>\<^verbatim>\<open>c*9.0/5.0 + 32.0\<close>, evaluated from the left, each operation rounding.\<close>

definition fahrenheit :: "float64 \<Rightarrow> float64" where
  "fahrenheit c = fadd (fdiv (fmul c 9) 5) 32"

text \<open>
  The body of \<^verbatim>\<open>parseAdvertisement\<close> after the length check assigns the fields of one
  \<^verbatim>\<open>Reading\<close> block by block. Each block below is one of them, in the order of the source;
  \<open>parseAdvertisement\<close> runs them in that order.
\<close>

text \<open>Model, firmware, battery and sample counter (indices 0 to 6).\<close>

definition parse_header :: "byte list \<Rightarrow> Reading \<Rightarrow> Reading" where
  "parse_header data r =
     r\<lparr>ModelByte := data ! 0,
       Model := modelName (data ! 0),
       FirmwareMinor := data ! 1,
       FirmwareMajor := data ! 2,
       Firmware := fmt_d (unat (data ! 2)) @ ''.'' @ fmt_02d (unat (data ! 1)),
       BatteryPercent := min (uint (data ! 4)) 100,
       SampleCounter := LittleEndian_Uint16 (slice data 5 7)\<rparr>"

text \<open>Primary temperature (indices 7 and 8).\<close>

definition parse_primary_temperature :: "byte list \<Rightarrow> Reading \<Rightarrow> Reading" where
  "parse_primary_temperature data r =
     (let tempRaw = LittleEndian_Uint16 (slice data 7 9);
          r = r\<lparr>TemperatureC := round_100 (parseTemperature (ModelByte r) tempRaw)\<rparr>
      in r\<lparr>TemperatureF := round_10 (fahrenheit (TemperatureC r))\<rparr>)"

text \<open>Realtime temperature (index 3 the low byte, index 9 the high byte).\<close>

definition parse_realtime_temperature :: "byte list \<Rightarrow> Reading \<Rightarrow> Reading" where
  "parse_realtime_temperature data r =
     (if 10 \<le> length data \<and> \<not> lookup_bool legacyTempModels (ModelByte r) then
        let rtRaw = (ucast (data ! 3) :: uint16) OR push_bit 8 (ucast (data ! 9))
        in if rtRaw \<noteq> 0xFFFF \<and> rtRaw \<noteq> 0 then
             let r = r\<lparr>HasRealtime := True\<rparr>;
                 r = r\<lparr>RealtimeTempC := round_100 (parseTemperature (ModelByte r) rtRaw)\<rparr>
             in r\<lparr>RealtimeTempF := round_10 (fahrenheit (RealtimeTempC r))\<rparr>
           else r
      else r)"

text \<open>Weight left and right (indices 10 to 13).\<close>

definition parse_weight_pair :: "byte list \<Rightarrow> Reading \<Rightarrow> Reading" where
  "parse_weight_pair data r =
     (if 14 \<le> length data then
        let wlRaw = LittleEndian_Uint16 (slice data 10 12);
            wrRaw = LittleEndian_Uint16 (slice data 12 14);
            (wl, wlOk) = parseWeight (ModelByte r) wlRaw;
            (wr, wrOk) = parseWeight (ModelByte r) wrRaw
        in if wlOk \<or> wrOk then
             let r = r\<lparr>HasWeight := True\<rparr>;
                 r = r\<lparr>WeightLeft := round_100 wl\<rparr>;
                 r = r\<lparr>WeightRight := round_100 wr\<rparr>
             in r\<lparr>WeightTotal := round_100 (fadd (WeightLeft r) (WeightRight r))\<rparr>
           else r
      else r)"

text \<open>Humidity (index 14).\<close>

definition parse_humidity :: "byte list \<Rightarrow> Reading \<Rightarrow> Reading" where
  "parse_humidity data r =
     (if 15 \<le> length data then
        if \<not> lookup_bool noHumidityModels (ModelByte r) then
          let hum = uint (data ! 14)
          in if 0 \<le> hum \<and> hum \<le> 100 then r\<lparr>HasHumidity := True, HumidityPct := hum\<rparr> else r
        else r
      else r)"

text \<open>Extended fields (indices 15 to 20): the second weight pair, or the swarm state.\<close>

definition parse_four_cell :: "byte list \<Rightarrow> Reading \<Rightarrow> Reading" where
  "parse_four_cell data r =
     (if lookup_bool fourCellWeightModels (ModelByte r) then
        let wl2Raw = LittleEndian_Uint16 (slice data 15 17);
            wr2Raw = LittleEndian_Uint16 (slice data 17 19);
            (wl2, wl2Ok) = parseWeight (ModelByte r) wl2Raw;
            (wr2, wr2Ok) = parseWeight (ModelByte r) wr2Raw
        in if wl2Ok \<or> wr2Ok then
             let r = r\<lparr>Has4Cell := True\<rparr>;
                 r = r\<lparr>WeightLeft2 := round_100 wl2\<rparr>;
                 r = r\<lparr>WeightRight2 := round_100 wr2\<rparr>
             in r\<lparr>WeightTotal :=
                    round_100 (fadd (fadd (fadd (WeightLeft r) (WeightRight r)) (WeightLeft2 r))
                      (WeightRight2 r))\<rparr>
           else r
      else r)"

definition parse_swarm :: "byte list \<Rightarrow> Reading \<Rightarrow> Reading" where
  "parse_swarm data r =
     (if lookup_bool swarmModels (ModelByte r) \<and> 20 \<le> length data
      then r\<lparr>HasSwarm := True, SwarmState := uint (data ! 19)\<rparr>
      else r)"

definition parse_extended :: "byte list \<Rightarrow> Reading \<Rightarrow> Reading" where
  "parse_extended data r =
     (if 19 \<le> length data then parse_swarm data (parse_four_cell data r) else r)"

text \<open>Realtime total weight (indices 19 and 20).\<close>

definition parse_realtime_weight :: "byte list \<Rightarrow> Reading \<Rightarrow> Reading" where
  "parse_realtime_weight data r =
     (if 21 \<le> length data \<and> lookup_bool weightModels (ModelByte r)
         \<and> \<not> lookup_bool legacyTempModels (ModelByte r) then
        let rtWtRaw = LittleEndian_Uint16 (slice data 19 21)
        in if \<not> lookup_bool weightSentinels rtWtRaw
           then r\<lparr>RealtimeWeight := fdiv (fsub (float64_of rtWtRaw) 32767) 100\<rparr>
           else r
      else r)"

text \<open>
  The error of \<^verbatim>\<open>fmt.Errorf("payload too short: got %d bytes, need at least 15", len(data))\<close>
  is its message.
\<close>

definition payload_too_short :: "nat \<Rightarrow> string" where
  "payload_too_short n = ''payload too short: got '' @ fmt_d n @ '' bytes, need at least 15''"

definition parseAdvertisement ::
    "(string \<Rightarrow> string) \<Rightarrow> nat \<Rightarrow> string \<Rightarrow> int16 \<Rightarrow> byte list \<Rightarrow> string + Reading" where
  "parseAdvertisement unicode_upper now mac rssi data =
     (if length data < 15 then Inl (payload_too_short (length data))
      else
        let r = new_Reading (ToUpper unicode_upper mac) rssi now;
            r = parse_header data r;
            r = parse_primary_temperature data r;
            r = parse_realtime_temperature data r;
            r = parse_weight_pair data r;
            r = parse_humidity data r;
            r = parse_extended data r;
            r = parse_realtime_weight data r
        in Inr r)"

section \<open>Dedup tracker\<close>

text \<open>
  The tracker's two maps. Every method holds the tracker's mutex from entry to return, so
  a call is one atomic step from a tracker state to the result and the next state.
\<close>

record tracker =
  seen :: "string \<rightharpoonup> uint16"
  firstSee :: "string \<rightharpoonup> bool"

definition newTracker :: tracker where
  "newTracker = \<lparr>seen = Map.empty, firstSee = Map.empty\<rparr>"

definition isNew :: "tracker \<Rightarrow> string \<Rightarrow> uint16 \<Rightarrow> bool \<times> tracker" where
  "isNew t mac counter =
     (let last = (case seen t mac of None \<Rightarrow> 0 | Some v \<Rightarrow> v);
          ok = (seen t mac \<noteq> None)
      in if ok \<and> last = counter then (False, t)
         else (True, t\<lparr>seen := (seen t)(mac \<mapsto> counter)\<rparr>))"

definition isFirstDiscovery :: "tracker \<Rightarrow> string \<Rightarrow> bool \<times> tracker" where
  "isFirstDiscovery t mac =
     (if lookup_bool (firstSee t) mac then (False, t)
      else (True, t\<lparr>firstSee := (firstSee t)(mac \<mapsto> True)\<rparr>))"

section \<open>Notions of the specification\<close>

text \<open>
  The definitions of this section are not functions of the program. They say what the
  specification's words mean on the program's values: a history of calls, the canonical
  form of an address, a value rounded to a number of decimal places.
\<close>

text \<open>
  A history of a tracker: the calls the scan callback has made on it, in the order in
  which they took the mutex. \<open>run\<close> is the tracker's state after them.
\<close>

datatype call = IsNew string uint16 | IsFirstDiscovery string

fun step :: "tracker \<Rightarrow> call \<Rightarrow> tracker" where
  "step t (IsNew mac counter) = snd (isNew t mac counter)"
| "step t (IsFirstDiscovery mac) = snd (isFirstDiscovery t mac)"

fun run :: "tracker \<Rightarrow> call list \<Rightarrow> tracker" where
  "run t [] = t"
| "run t (c # cs) = run (step t c) cs"

text \<open>
  Colon-separated octets, as an address is written: two digits, then any number of times
  a colon and two digits. The canonical form has upper-case hexadecimal digits.
\<close>

definition is_hex :: "char \<Rightarrow> bool" where
  "is_hex c = (c \<in> set ''0123456789ABCDEFabcdef'')"

definition is_upper_hex :: "char \<Rightarrow> bool" where
  "is_upper_hex c = (c \<in> set ''0123456789ABCDEF'')"

fun colon_octets :: "(char \<Rightarrow> bool) \<Rightarrow> string \<Rightarrow> bool" where
  "colon_octets digit [a, b] = (digit a \<and> digit b)"
| "colon_octets digit (a # b # c # rest) =
     (digit a \<and> digit b \<and> c = CHR '':'' \<and> colon_octets digit rest)"
| "colon_octets digit _ = False"

definition canonical_address :: "string \<Rightarrow> bool" where
  "canonical_address s = colon_octets is_upper_hex s"

text \<open>
  A binary64 value has \<open>d\<close> decimal places when it is the binary64 number nearest to a
  decimal with \<open>d\<close> places: the quotient, rounded once, of an integer by \<open>10 ^ d\<close>. That
  integer is then the integer nearest to \<open>10 ^ d\<close> times the value.

  A value \<open>v\<close> is \<open>x\<close> rounded to \<open>d\<close> places when it has \<open>d\<close> decimal places and its integer
  is a nearest integer to \<open>x * 10 ^ d\<close>: within a half of it, up to the one rounding error
  of a binary64 product, the \<open>2 ^ 53\<close>-th part of \<open>x * 10 ^ d\<close>.

  Neither notion refers to \<open>round_100\<close> or \<open>round_10\<close>: the products are products of
  reals and \<open>round\<close> is the nearest integer of a real.
\<close>

definition decimal_places :: "nat \<Rightarrow> float64 \<Rightarrow> bool" where
  "decimal_places d v = (v = fl (of_int (round (v * 10 ^ d)) / 10 ^ d))"

definition rounding_of :: "nat \<Rightarrow> real \<Rightarrow> float64 \<Rightarrow> bool" where
  "rounding_of d x v =
     (decimal_places d v \<and>
      \<bar>of_int (round (v * 10 ^ d)) - x * 10 ^ d\<bar> \<le> 1 / 2 + \<bar>x * 10 ^ d\<bar> / 2 ^ 53)"

section \<open>Binary64 rounding\<close>

declare halvings.simps [simp del] doublings.simps [simp del]

lemma halvings_bounds: "1 \<le> x \<Longrightarrow> 2 ^ halvings x \<le> x \<and> x < 2 ^ Suc (halvings x)"
proof (induction x rule: halvings.induct)
  case (1 x)
  show ?case
  proof (cases "x < 2")
    case True
    with "1.prems" show ?thesis by (simp add: halvings.simps [of x])
  next
    case False
    then have "1 \<le> x / 2" by simp
    with "1.IH" False have "2 ^ halvings (x / 2) \<le> x / 2 \<and> x / 2 < 2 ^ Suc (halvings (x / 2))"
      by blast
    with False show ?thesis by (simp add: halvings.simps [of x])
  qed
qed

lemma doublings_bounds:
  "0 < x \<Longrightarrow> x < 1 \<Longrightarrow> 1 \<le> x * 2 ^ doublings x \<and> x * 2 ^ doublings x < 2"
proof (induction x rule: doublings.induct)
  case (1 x)
  show ?case
  proof (cases "2 * x < 1")
    case True
    with "1.prems" "1.IH" have "1 \<le> 2 * x * 2 ^ doublings (2 * x) \<and> 2 * x * 2 ^ doublings (2 * x) < 2"
      by simp
    with "1.prems" show ?thesis by (simp add: doublings.simps [of x] mult_ac)
  next
    case False
    then have "doublings (2 * x) = 0" by (simp add: doublings.simps [of "2 * x"])
    with "1.prems" False show ?thesis by (simp add: doublings.simps [of x])
  qed
qed

lemma expo_bounds:
  assumes "0 < x"
  shows "2 powi expo x \<le> x" and "x < 2 powi (expo x + 1)"
proof -
  show "2 powi expo x \<le> x"
  proof (cases "1 \<le> x")
    case True
    then show ?thesis using halvings_bounds [of x] by (simp add: expo_def power_int_def)
  next
    case False
    with assms have "1 \<le> x * 2 ^ doublings x" using doublings_bounds [of x] by simp
    then have "1 / 2 ^ doublings x \<le> x" by (simp add: field_simps)
    with False show ?thesis by (simp add: expo_def power_int_minus inverse_eq_divide)
  qed
  show "x < 2 powi (expo x + 1)"
  proof (cases "1 \<le> x")
    case True
    then have "x < 2 ^ Suc (halvings x)" using halvings_bounds [of x] by simp
    moreover have "(2::real) powi (int (halvings x) + 1) = 2 ^ Suc (halvings x)"
      by (simp add: power_int_add)
    ultimately show ?thesis using True by (simp add: expo_def)
  next
    case False
    with assms have "x * 2 ^ doublings x < 2" using doublings_bounds [of x] by simp
    then have "x < 2 / 2 ^ doublings x" by (simp add: field_simps)
    moreover have "(2::real) powi (- int (doublings x) + 1) = 2 / 2 ^ doublings x"
      by (simp add: power_int_diff)
    ultimately show ?thesis using False by (simp add: expo_def)
  qed
qed

lemma expo_le: 
  assumes "0 < x" and "x < 2 powi (n + 1)"
  shows "expo x \<le> n"
proof (rule ccontr)
  assume "\<not> expo x \<le> n"
  then have "n + 1 \<le> expo x" by simp
  then have "(2::real) powi (n + 1) \<le> 2 powi expo x" by (intro power_int_increasing) simp_all
  with expo_bounds(1) [OF assms(1)] assms(2) show False by simp
qed

lemma round_ne_of_int [simp]: "round_ne (of_int m) = m"
  by (simp add: round_ne_def)

text \<open>A number with at most 53 significant bits is a binary64 number: rounding keeps it.\<close>

lemma fl_exact:
  assumes "\<bar>m\<bar> < 2 ^ 53"
  shows "fl (of_int m * 2 powi k) = of_int m * 2 powi k"
proof (cases "m = 0")
  case True
  then show ?thesis by (simp add: fl_def)
next
  case False
  define x :: real where "x = of_int m * 2 powi k"
  define e where "e = expo \<bar>x\<bar> - 52"
  have x0: "x \<noteq> 0" using False by (simp add: x_def)
  have "\<bar>x\<bar> = of_int \<bar>m\<bar> * 2 powi k" by (simp add: x_def abs_mult)
  also have "\<dots> < 2 ^ 53 * 2 powi k"
  proof -
    have "real_of_int \<bar>m\<bar> < 2 ^ 53" using assms by (metis of_int_less_iff of_int_numeral of_int_power)
    then show ?thesis by (simp add: mult_strict_right_mono)
  qed
  also have "\<dots> = 2 powi (k + 52 + 1)" by (simp add: power_int_add)
  finally have "expo \<bar>x\<bar> \<le> k + 52" using x0 by (intro expo_le) simp_all
  then have ek: "e \<le> k" by (simp add: e_def)
  have "x / 2 powi e = of_int m * 2 powi (k - e)" by (simp add: x_def power_int_diff)
  also have "\<dots> = of_int (m * 2 ^ nat (k - e))" using ek by (simp add: power_int_def)
  finally have "of_int (round_ne (x / 2 powi e)) * 2 powi e = x / 2 powi e * 2 powi e"
    by (simp only: round_ne_of_int)
  also have "\<dots> = x" by simp
  finally show ?thesis using x0 by (simp add: fl_def Let_def e_def [symmetric] x_def [symmetric])
qed

lemma fl_of_int: "\<bar>m\<bar> < 2 ^ 53 \<Longrightarrow> fl (of_int m) = of_int m"
  using fl_exact [of m 0] by simp

lemma fl_0 [simp]: "fl 0 = 0"
  by (simp add: fl_def)

lemma fl_1 [simp]: "fl 1 = 1"
  using fl_of_int [of 1] by simp

lemma fl_minus_1 [simp]: "fl (- 1) = - 1"
  using fl_of_int [of "- 1"] by simp

lemma fl_numeral [simp]: "\<bar>numeral w :: int\<bar> < 2 ^ 53 \<Longrightarrow> fl (numeral w) = numeral w"
  using fl_of_int [of "numeral w"] by simp

lemma fl_neg_numeral [simp]:
  "\<bar>numeral w :: int\<bar> < 2 ^ 53 \<Longrightarrow> fl (- numeral w) = - numeral w"
  using fl_of_int [of "- numeral w"] by simp

lemma fl_dyadic16: "\<bar>m\<bar> < 2 ^ 53 \<Longrightarrow> fl (of_int m / 65536) = of_int m / 65536"
  using fl_exact [of m "- 16"] by (simp add: power_int_minus inverse_eq_divide)

lemma round_ne_error: "\<bar>of_int (round_ne x) - x\<bar> \<le> 1 / 2"
proof -
  have "of_int \<lfloor>x\<rfloor> \<le> x" "x < of_int \<lfloor>x\<rfloor> + 1" by linarith+
  then show ?thesis by (auto simp: round_ne_def Let_def)
qed

text \<open>Rounding moves a number by at most half a unit in its last place.\<close>

lemma fl_error: "\<bar>fl x - x\<bar> \<le> \<bar>x\<bar> / 2 ^ 53"
proof (cases "x = 0")
  case True
  then show ?thesis by (simp add: fl_def)
next
  case False
  define e where "e = expo \<bar>x\<bar> - 52"
  define y where "y = x / 2 powi e"
  have p: "(0::real) < 2 powi e" by simp
  have xy: "x = y * 2 powi e" by (simp add: y_def)
  have f: "fl x = of_int (round_ne y) * 2 powi e"
    using False unfolding fl_def e_def y_def by (simp add: Let_def)
  have "fl x - x = of_int (round_ne y) * 2 powi e - y * 2 powi e"
    using f xy by linarith
  also have "\<dots> = (of_int (round_ne y) - y) * 2 powi e"
    by (simp add: algebra_simps)
  finally have "\<bar>fl x - x\<bar> = \<bar>of_int (round_ne y) - y\<bar> * 2 powi e"
    by (simp add: abs_mult)
  also have "\<dots> \<le> 1 / 2 * 2 powi e"
    using round_ne_error [of y] p by (intro mult_right_mono) simp_all
  also have "\<dots> = 2 powi expo \<bar>x\<bar> / 2 ^ 53"
    by (simp add: e_def power_int_diff)
  also have "\<dots> \<le> \<bar>x\<bar> / 2 ^ 53"
    using expo_bounds(1) [of "\<bar>x\<bar>"] False by (simp add: divide_right_mono)
  finally show ?thesis .
qed

lemma fl_bound: "\<bar>x\<bar> \<le> B \<Longrightarrow> \<bar>fl x\<bar> \<le> 2 * B"
proof -
  assume b: "\<bar>x\<bar> \<le> B"
  have "\<bar>x\<bar> / 2 ^ 53 \<le> \<bar>x\<bar>" by (simp add: divide_le_eq)
  with fl_error [of x] have "\<bar>fl x\<bar> \<le> 2 * \<bar>x\<bar>" by linarith
  with b show ?thesis by linarith
qed

lemma fl_neg: "x < 0 \<Longrightarrow> fl x < 0"
proof -
  assume n: "x < 0"
  have "\<bar>x\<bar> / 2 ^ 53 < \<bar>x\<bar>" using n by (simp add: divide_less_eq)
  with fl_error [of x] n show ?thesis by linarith
qed

lemma fadd_bound: "\<bar>a\<bar> \<le> A \<Longrightarrow> \<bar>b\<bar> \<le> B \<Longrightarrow> \<bar>fadd a b\<bar> \<le> 2 * (A + B)"
  unfolding fadd_def by (rule fl_bound) linarith

lemma math_Round_near: "\<bar>z - of_int k\<bar> < 1 / 2 \<Longrightarrow> math_Round z = of_int k"
proof -
  assume "\<bar>z - of_int k\<bar> < 1 / 2"
  then have a: "of_int k - 1 / 2 < z" "z < of_int k + 1 / 2" by linarith+
  show ?thesis
  proof (cases "z < 0")
    case True
    have "\<lfloor>- z + 1 / 2\<rfloor> = - k" using a by (intro floor_unique) simp_all
    with True show ?thesis by (simp add: math_Round_def)
  next
    case False
    have "\<lfloor>z + 1 / 2\<rfloor> = k" using a by (intro floor_unique) simp_all
    with False show ?thesis by (simp add: math_Round_def)
  qed
qed

lemma math_Round_int: "\<exists>k. math_Round x = of_int k \<and> \<bar>of_int k :: real\<bar> \<le> \<bar>x\<bar> + 1"
proof (cases "x < 0")
  case True
  define f where "f = \<lfloor>- x + 1 / 2\<rfloor>"
  have "of_int f \<le> - x + 1 / 2" "0 \<le> f" using True unfolding f_def by linarith+
  then have "\<bar>of_int (- f) :: real\<bar> \<le> \<bar>x\<bar> + 1" by simp
  moreover have "math_Round x = of_int (- f)" using True by (simp add: math_Round_def f_def)
  ultimately show ?thesis by blast
next
  case False
  define f where "f = \<lfloor>x + 1 / 2\<rfloor>"
  have "of_int f \<le> x + 1 / 2" "0 \<le> f" using False unfolding f_def by linarith+
  then have "\<bar>of_int f :: real\<bar> \<le> \<bar>x\<bar> + 1" by simp
  moreover have "math_Round x = of_int f" using False by (simp add: math_Round_def f_def)
  ultimately show ?thesis by blast
qed

lemma math_Round_numeral [simp]: "math_Round (numeral w) = numeral w"
  using math_Round_near [of "numeral w" "numeral w"] by simp

lemma fahrenheit_bound:
  assumes "\<bar>c\<bar> \<le> B"
  shows "\<bar>fahrenheit c\<bar> \<le> 16 * B + 64"
proof -
  have "\<bar>c * 9\<bar> \<le> 9 * B" using assms by simp
  then have 1: "\<bar>fmul c 9\<bar> \<le> 2 * (9 * B)" unfolding fmul_def by (rule fl_bound)
  then have "\<bar>fmul c 9 / 5\<bar> \<le> 18 * B / 5" by simp
  then have 2: "\<bar>fdiv (fmul c 9) 5\<bar> \<le> 2 * (18 * B / 5)" unfolding fdiv_def by (rule fl_bound)
  have "\<bar>fadd (fdiv (fmul c 9) 5) 32\<bar> \<le> 2 * (2 * (18 * B / 5) + 32)"
    using 2 by (rule fadd_bound) simp
  moreover have "0 \<le> B" using assms by linarith
  ultimately show ?thesis by (simp add: fahrenheit_def)
qed

section \<open>The model registry\<close>

lemma legacyTempModels_iff: "lookup_bool legacyTempModels m = (m \<in> {41, 42, 43})"
  by (simp add: lookup_bool_def legacyTempModels_def modelT_def modelTH_def modelW_def)

lemma noHumidityModels_iff: "lookup_bool noHumidityModels m = (m \<in> {41, 47, 49, 52})"
  by (simp add: lookup_bool_def noHumidityModels_def modelT_def modelT2_def modelW3_def
      modelSubHub_def)

lemma weightModels_iff: "lookup_bool weightModels m = (m \<in> {43, 57, 49, 58})"
  by (simp add: lookup_bool_def weightModels_def modelW_def modelWPlus_def modelW3_def
      modelDIY_def)

lemma fourCellWeightModels_iff: "lookup_bool fourCellWeightModels m = (m \<in> {49, 58})"
  by (simp add: lookup_bool_def fourCellWeightModels_def modelW3_def modelDIY_def)

lemma swarmModels_iff: "lookup_bool swarmModels m = (m \<in> {47, 56})"
  by (simp add: lookup_bool_def swarmModels_def modelT2_def modelTH2_def)

lemma weightSentinels_iff: "lookup_bool weightSentinels raw = (raw \<in> {0x7FFF, 0x8005, 0xFFFF})"
  by (simp add: lookup_bool_def weightSentinels_def)

lemma fourCell_weight: "lookup_bool fourCellWeightModels m \<Longrightarrow> lookup_bool weightModels m"
  by (auto simp: fourCellWeightModels_iff weightModels_iff)

section \<open>The field decoder\<close>

lemma uint_uint16_less: "uint (raw :: uint16) < 65536"
  using uint_bounded [of raw] by simp

lemma float64_of_uint: "float64_of raw = of_int (uint raw)"
  by (simp add: float64_of_def)

lemma raw_bounds:
  fixes x :: real
  assumes "0 \<le> x" "x < 65536"
  shows "\<bar>x / 65536 * 165 - 40\<bar> \<le> 2000" "\<bar>(x - 5000) / 100\<bar> \<le> 1000"
    "\<bar>(x - 32767) / 100\<bar> \<le> 1000"
  using assms by (simp_all add: abs_le_iff)

lemma real_unat_bounds: "0 \<le> real (unat (raw :: uint16))" "real (unat raw) < 65536"
proof -
  have "real_of_int (uint raw) < real_of_int 65536"
    using uint_uint16_less [of raw] by (simp only: of_int_less_iff)
  then show "real (unat raw) < 65536" by simp
qed (rule of_nat_0_le_iff)

lemmas unat_bounds = raw_bounds [OF real_unat_bounds]

lemma legacy_formula_exact:
  "fsub (fmul (fdiv (float64_of raw) 65536) 165) 40 = real (unat raw) / 65536 * 165 - 40"
proof -
  define n where "n = uint raw"
  have n: "0 \<le> n" "n < 65536" using uint_uint16_less [of raw] by (simp_all add: n_def)
  have r: "float64_of raw = of_int n" by (simp add: float64_of_uint n_def)
  have 1: "fdiv (of_int n) 65536 = of_int n / 65536"
    unfolding fdiv_def using n by (intro fl_dyadic16) simp
  have "fmul (of_int n / 65536) 165 = fl (of_int (n * 165) / 65536)"
    by (simp add: fmul_def)
  also have "\<dots> = of_int (n * 165) / 65536" using n by (intro fl_dyadic16) simp
  finally have 2: "fmul (of_int n / 65536) 165 = of_int (n * 165) / 65536" .
  have "fsub (of_int (n * 165) / 65536) 40 = fl (of_int (n * 165 - 2621440) / 65536)"
    by (simp add: fsub_def diff_divide_distrib)
  also have "\<dots> = of_int (n * 165 - 2621440) / 65536" using n by (intro fl_dyadic16) simp
  finally have 3: "fsub (of_int (n * 165) / 65536) 40 = of_int (n * 165 - 2621440) / 65536" .
  show ?thesis unfolding r 1 2 3 by (simp add: n_def diff_divide_distrib)
qed

lemma fsub_float64_of:
  assumes "\<bar>c\<bar> \<le> 65536"
  shows "fsub (float64_of raw) (of_int c) = real (unat raw) - of_int c"
proof -
  define n where "n = uint raw"
  have "0 \<le> n" "n < 65536" using uint_uint16_less [of raw] by (simp_all add: n_def)
  then have "\<bar>n - c\<bar> < 2 ^ 53" using assms by simp
  then have "fl (of_int (uint raw - c)) = of_int (uint raw - c)"
    unfolding n_def by (rule fl_of_int)
  then show ?thesis by (simp add: fsub_def float64_of_uint)
qed

lemmas fsub_5000 = fsub_float64_of [of 5000, simplified]

lemmas fsub_32767 = fsub_float64_of [of 32767, simplified]

text \<open>
  C1. \<open>parseTemperature\<close> is a total function of the model byte and the 16 bit raw value.
  The raw value \<open>0xFFFF\<close> gives 0 for every model. For the legacy models 41, 42 and 43 every
  other raw value gives \<open>raw / 65536 * 165 - 40\<close>, and no operation of that formula rounds.
  For every other model byte every raw value from 0 to 65534 gives the binary64 quotient of
  the integer \<open>raw - 5000\<close> by 100, which is the value of the Go expression and differs from
  the real quotient by at most its \<open>2 ^ 53\<close>-th part.
\<close>

theorem parseTemperature_formulas:
  "parseTemperature model 0xFFFF = 0 \<and>
   (raw \<noteq> 0xFFFF \<longrightarrow> model \<in> {41, 42, 43} \<longrightarrow>
      parseTemperature model raw = real (unat raw) / 65536 * 165 - 40) \<and>
   (raw \<noteq> 0xFFFF \<longrightarrow> model \<notin> {41, 42, 43} \<longrightarrow>
      parseTemperature model raw = fdiv (real (unat raw) - 5000) 100 \<and>
      \<bar>parseTemperature model raw - (real (unat raw) - 5000) / 100\<bar>
        \<le> \<bar>(real (unat raw) - 5000) / 100\<bar> / 2 ^ 53)"
proof (intro conjI impI)
  show "parseTemperature model 0xFFFF = 0" by (simp add: parseTemperature_def)
next
  assume "raw \<noteq> 0xFFFF" "model \<in> {41, 42, 43}"
  then show "parseTemperature model raw = real (unat raw) / 65536 * 165 - 40"
    by (simp only: parseTemperature_def legacyTempModels_iff legacy_formula_exact if_True if_False)
next
  assume a: "raw \<noteq> 0xFFFF" "model \<notin> {41, 42, 43}"
  then show c: "parseTemperature model raw = fdiv (real (unat raw) - 5000) 100"
    by (simp add: parseTemperature_def legacyTempModels_iff fsub_5000)
  show "\<bar>parseTemperature model raw - (real (unat raw) - 5000) / 100\<bar>
        \<le> \<bar>(real (unat raw) - 5000) / 100\<bar> / 2 ^ 53"
    unfolding c fdiv_def by (rule fl_error)
qed

theorem parseTemperature_formulas_witness:
  "parseTemperature 42 0xFFFF = 0 \<and> parseTemperature 42 24618 = 24618 / 65536 * 165 - 40 \<and>
   parseTemperature 56 6100 = 11"
  using parseTemperature_formulas [of 42 24618] parseTemperature_formulas [of 56 6100]
  by (simp add: fdiv_def)

lemma parseTemperature_bound: "\<bar>parseTemperature m raw\<bar> \<le> 2000"
proof (cases "raw \<noteq> 0xFFFF \<and> \<not> lookup_bool legacyTempModels m")
  case True
  then have "parseTemperature m raw = fl ((real (unat raw) - 5000) / 100)"
    by (simp add: parseTemperature_def fsub_5000 fdiv_def)
  moreover have "\<bar>fl ((real (unat raw) - 5000) / 100)\<bar> \<le> 2 * 1000"
    using unat_bounds(2) by (rule fl_bound)
  ultimately show ?thesis by simp
next
  case False
  then have "parseTemperature m raw = 0 \<or>
      parseTemperature m raw = real (unat raw) / 65536 * 165 - 40"
    by (auto simp only: parseTemperature_def legacy_formula_exact split: if_splits)
  then show ?thesis using unat_bounds(1) [of raw] by auto
qed

lemma parseWeight_invalid: "\<not> snd (parseWeight m raw) \<Longrightarrow> fst (parseWeight m raw) = 0"
  by (simp add: parseWeight_def Let_def split: if_splits)

lemma parseWeight_valid: "snd (parseWeight m raw) \<Longrightarrow> lookup_bool weightModels m"
  by (simp add: parseWeight_def Let_def split: if_splits)

text \<open>
  C2. \<open>parseWeight\<close> is a total function. For a model byte without the weight capability
  it returns \<open>(0, False)\<close> whatever the raw value. For a model with the capability it returns
  \<open>(0, False)\<close> at the raw values \<open>0x7FFF\<close>, \<open>0x8005\<close> and \<open>0xFFFF\<close>, and at every other
  raw value it returns the binary64 quotient of the integer \<open>raw - 32767\<close> by 100 with
  \<open>True\<close>; that weight is negative whenever the raw value is below 32767.
\<close>

theorem parseWeight_contract:
  "(\<not> lookup_bool weightModels model \<longrightarrow> parseWeight model raw = (0, False)) \<and>
   (lookup_bool weightModels model \<longrightarrow> raw \<in> {0x7FFF, 0x8005, 0xFFFF} \<longrightarrow>
      parseWeight model raw = (0, False)) \<and>
   (lookup_bool weightModels model \<longrightarrow> raw \<notin> {0x7FFF, 0x8005, 0xFFFF} \<longrightarrow>
      parseWeight model raw = (fdiv (real (unat raw) - 32767) 100, True) \<and>
      (unat raw < 32767 \<longrightarrow> fst (parseWeight model raw) < 0))"
proof (intro conjI impI)
  assume "\<not> lookup_bool weightModels model"
  then show "parseWeight model raw = (0, False)" by (simp add: parseWeight_def)
next
  assume "lookup_bool weightModels model" "raw \<in> {0x7FFF, 0x8005, 0xFFFF}"
  then show "parseWeight model raw = (0, False)"
    by (simp add: parseWeight_def weightSentinels_iff)
next
  assume a: "lookup_bool weightModels model" "raw \<notin> {0x7FFF, 0x8005, 0xFFFF}"
  then show c: "parseWeight model raw = (fdiv (real (unat raw) - 32767) 100, True)"
    by (simp add: parseWeight_def weightSentinels_iff fsub_32767)
  assume "unat raw < 32767"
  then have "real (unat raw) < 32767" by linarith
  then have "(real (unat raw) - 32767) / 100 < 0" by simp
  then show "fst (parseWeight model raw) < 0" unfolding c fst_conv fdiv_def by (rule fl_neg)
qed

theorem parseWeight_contract_witness:
  "parseWeight 42 36479 = (0, False) \<and> parseWeight 57 0x8005 = (0, False) \<and>
   parseWeight 57 32667 = (- 1, True) \<and> fst (parseWeight 57 32667) < 0"
  using parseWeight_contract [of 42 36479] parseWeight_contract [of 57 "0x8005"]
    parseWeight_contract [of 57 32667]
  by (simp add: weightModels_iff fdiv_def)

lemma parseWeight_bound: "\<bar>fst (parseWeight m raw)\<bar> \<le> 2000"
proof (cases "snd (parseWeight m raw)")
  case True
  then have "fst (parseWeight m raw) = fl ((real (unat raw) - 32767) / 100)"
    by (simp add: parseWeight_def fsub_32767 fdiv_def Let_def split: if_splits)
  moreover have "\<bar>fl ((real (unat raw) - 32767) / 100)\<bar> \<le> 2 * 1000"
    using unat_bounds(3) by (rule fl_bound)
  ultimately show ?thesis by simp
next
  case False
  then show ?thesis by (simp add: parseWeight_invalid)
qed

section \<open>The blocks of the parser\<close>

declare fmt_d.simps [simp del]

text \<open>Each block of the parser leaves the fields it does not assign as they were.\<close>

lemma parse_header_frame [simp]:
  "MAC (parse_header data r) = MAC r"
  "RSSI (parse_header data r) = RSSI r"
  "TemperatureC (parse_header data r) = TemperatureC r"
  "TemperatureF (parse_header data r) = TemperatureF r"
  "HasHumidity (parse_header data r) = HasHumidity r"
  "HumidityPct (parse_header data r) = HumidityPct r"
  "HasWeight (parse_header data r) = HasWeight r"
  "WeightLeft (parse_header data r) = WeightLeft r"
  "WeightRight (parse_header data r) = WeightRight r"
  "WeightTotal (parse_header data r) = WeightTotal r"
  "Has4Cell (parse_header data r) = Has4Cell r"
  "WeightLeft2 (parse_header data r) = WeightLeft2 r"
  "WeightRight2 (parse_header data r) = WeightRight2 r"
  "HasRealtime (parse_header data r) = HasRealtime r"
  "RealtimeTempC (parse_header data r) = RealtimeTempC r"
  "RealtimeTempF (parse_header data r) = RealtimeTempF r"
  "RealtimeWeight (parse_header data r) = RealtimeWeight r"
  "HasSwarm (parse_header data r) = HasSwarm r"
  "SwarmState (parse_header data r) = SwarmState r"
  "Timestamp (parse_header data r) = Timestamp r"
  by (simp_all add: parse_header_def Let_def split: prod.splits)

lemma parse_primary_temperature_frame [simp]:
  "MAC (parse_primary_temperature data r) = MAC r"
  "RSSI (parse_primary_temperature data r) = RSSI r"
  "Model (parse_primary_temperature data r) = Model r"
  "ModelByte (parse_primary_temperature data r) = ModelByte r"
  "FirmwareMinor (parse_primary_temperature data r) = FirmwareMinor r"
  "FirmwareMajor (parse_primary_temperature data r) = FirmwareMajor r"
  "Firmware (parse_primary_temperature data r) = Firmware r"
  "BatteryPercent (parse_primary_temperature data r) = BatteryPercent r"
  "SampleCounter (parse_primary_temperature data r) = SampleCounter r"
  "HasHumidity (parse_primary_temperature data r) = HasHumidity r"
  "HumidityPct (parse_primary_temperature data r) = HumidityPct r"
  "HasWeight (parse_primary_temperature data r) = HasWeight r"
  "WeightLeft (parse_primary_temperature data r) = WeightLeft r"
  "WeightRight (parse_primary_temperature data r) = WeightRight r"
  "WeightTotal (parse_primary_temperature data r) = WeightTotal r"
  "Has4Cell (parse_primary_temperature data r) = Has4Cell r"
  "WeightLeft2 (parse_primary_temperature data r) = WeightLeft2 r"
  "WeightRight2 (parse_primary_temperature data r) = WeightRight2 r"
  "HasRealtime (parse_primary_temperature data r) = HasRealtime r"
  "RealtimeTempC (parse_primary_temperature data r) = RealtimeTempC r"
  "RealtimeTempF (parse_primary_temperature data r) = RealtimeTempF r"
  "RealtimeWeight (parse_primary_temperature data r) = RealtimeWeight r"
  "HasSwarm (parse_primary_temperature data r) = HasSwarm r"
  "SwarmState (parse_primary_temperature data r) = SwarmState r"
  "Timestamp (parse_primary_temperature data r) = Timestamp r"
  by (simp_all add: parse_primary_temperature_def Let_def split: prod.splits)

lemma parse_realtime_temperature_frame [simp]:
  "MAC (parse_realtime_temperature data r) = MAC r"
  "RSSI (parse_realtime_temperature data r) = RSSI r"
  "Model (parse_realtime_temperature data r) = Model r"
  "ModelByte (parse_realtime_temperature data r) = ModelByte r"
  "FirmwareMinor (parse_realtime_temperature data r) = FirmwareMinor r"
  "FirmwareMajor (parse_realtime_temperature data r) = FirmwareMajor r"
  "Firmware (parse_realtime_temperature data r) = Firmware r"
  "BatteryPercent (parse_realtime_temperature data r) = BatteryPercent r"
  "SampleCounter (parse_realtime_temperature data r) = SampleCounter r"
  "TemperatureC (parse_realtime_temperature data r) = TemperatureC r"
  "TemperatureF (parse_realtime_temperature data r) = TemperatureF r"
  "HasHumidity (parse_realtime_temperature data r) = HasHumidity r"
  "HumidityPct (parse_realtime_temperature data r) = HumidityPct r"
  "HasWeight (parse_realtime_temperature data r) = HasWeight r"
  "WeightLeft (parse_realtime_temperature data r) = WeightLeft r"
  "WeightRight (parse_realtime_temperature data r) = WeightRight r"
  "WeightTotal (parse_realtime_temperature data r) = WeightTotal r"
  "Has4Cell (parse_realtime_temperature data r) = Has4Cell r"
  "WeightLeft2 (parse_realtime_temperature data r) = WeightLeft2 r"
  "WeightRight2 (parse_realtime_temperature data r) = WeightRight2 r"
  "RealtimeWeight (parse_realtime_temperature data r) = RealtimeWeight r"
  "HasSwarm (parse_realtime_temperature data r) = HasSwarm r"
  "SwarmState (parse_realtime_temperature data r) = SwarmState r"
  "Timestamp (parse_realtime_temperature data r) = Timestamp r"
  by (simp_all add: parse_realtime_temperature_def Let_def split: prod.splits)

lemma parse_weight_pair_frame [simp]:
  "MAC (parse_weight_pair data r) = MAC r"
  "RSSI (parse_weight_pair data r) = RSSI r"
  "Model (parse_weight_pair data r) = Model r"
  "ModelByte (parse_weight_pair data r) = ModelByte r"
  "FirmwareMinor (parse_weight_pair data r) = FirmwareMinor r"
  "FirmwareMajor (parse_weight_pair data r) = FirmwareMajor r"
  "Firmware (parse_weight_pair data r) = Firmware r"
  "BatteryPercent (parse_weight_pair data r) = BatteryPercent r"
  "SampleCounter (parse_weight_pair data r) = SampleCounter r"
  "TemperatureC (parse_weight_pair data r) = TemperatureC r"
  "TemperatureF (parse_weight_pair data r) = TemperatureF r"
  "HasHumidity (parse_weight_pair data r) = HasHumidity r"
  "HumidityPct (parse_weight_pair data r) = HumidityPct r"
  "Has4Cell (parse_weight_pair data r) = Has4Cell r"
  "WeightLeft2 (parse_weight_pair data r) = WeightLeft2 r"
  "WeightRight2 (parse_weight_pair data r) = WeightRight2 r"
  "HasRealtime (parse_weight_pair data r) = HasRealtime r"
  "RealtimeTempC (parse_weight_pair data r) = RealtimeTempC r"
  "RealtimeTempF (parse_weight_pair data r) = RealtimeTempF r"
  "RealtimeWeight (parse_weight_pair data r) = RealtimeWeight r"
  "HasSwarm (parse_weight_pair data r) = HasSwarm r"
  "SwarmState (parse_weight_pair data r) = SwarmState r"
  "Timestamp (parse_weight_pair data r) = Timestamp r"
  by (simp_all add: parse_weight_pair_def Let_def split: prod.splits)

lemma parse_humidity_frame [simp]:
  "MAC (parse_humidity data r) = MAC r"
  "RSSI (parse_humidity data r) = RSSI r"
  "Model (parse_humidity data r) = Model r"
  "ModelByte (parse_humidity data r) = ModelByte r"
  "FirmwareMinor (parse_humidity data r) = FirmwareMinor r"
  "FirmwareMajor (parse_humidity data r) = FirmwareMajor r"
  "Firmware (parse_humidity data r) = Firmware r"
  "BatteryPercent (parse_humidity data r) = BatteryPercent r"
  "SampleCounter (parse_humidity data r) = SampleCounter r"
  "TemperatureC (parse_humidity data r) = TemperatureC r"
  "TemperatureF (parse_humidity data r) = TemperatureF r"
  "HasWeight (parse_humidity data r) = HasWeight r"
  "WeightLeft (parse_humidity data r) = WeightLeft r"
  "WeightRight (parse_humidity data r) = WeightRight r"
  "WeightTotal (parse_humidity data r) = WeightTotal r"
  "Has4Cell (parse_humidity data r) = Has4Cell r"
  "WeightLeft2 (parse_humidity data r) = WeightLeft2 r"
  "WeightRight2 (parse_humidity data r) = WeightRight2 r"
  "HasRealtime (parse_humidity data r) = HasRealtime r"
  "RealtimeTempC (parse_humidity data r) = RealtimeTempC r"
  "RealtimeTempF (parse_humidity data r) = RealtimeTempF r"
  "RealtimeWeight (parse_humidity data r) = RealtimeWeight r"
  "HasSwarm (parse_humidity data r) = HasSwarm r"
  "SwarmState (parse_humidity data r) = SwarmState r"
  "Timestamp (parse_humidity data r) = Timestamp r"
  by (simp_all add: parse_humidity_def Let_def split: prod.splits)

lemma parse_four_cell_frame [simp]:
  "MAC (parse_four_cell data r) = MAC r"
  "RSSI (parse_four_cell data r) = RSSI r"
  "Model (parse_four_cell data r) = Model r"
  "ModelByte (parse_four_cell data r) = ModelByte r"
  "FirmwareMinor (parse_four_cell data r) = FirmwareMinor r"
  "FirmwareMajor (parse_four_cell data r) = FirmwareMajor r"
  "Firmware (parse_four_cell data r) = Firmware r"
  "BatteryPercent (parse_four_cell data r) = BatteryPercent r"
  "SampleCounter (parse_four_cell data r) = SampleCounter r"
  "TemperatureC (parse_four_cell data r) = TemperatureC r"
  "TemperatureF (parse_four_cell data r) = TemperatureF r"
  "HasHumidity (parse_four_cell data r) = HasHumidity r"
  "HumidityPct (parse_four_cell data r) = HumidityPct r"
  "HasWeight (parse_four_cell data r) = HasWeight r"
  "WeightLeft (parse_four_cell data r) = WeightLeft r"
  "WeightRight (parse_four_cell data r) = WeightRight r"
  "HasRealtime (parse_four_cell data r) = HasRealtime r"
  "RealtimeTempC (parse_four_cell data r) = RealtimeTempC r"
  "RealtimeTempF (parse_four_cell data r) = RealtimeTempF r"
  "RealtimeWeight (parse_four_cell data r) = RealtimeWeight r"
  "HasSwarm (parse_four_cell data r) = HasSwarm r"
  "SwarmState (parse_four_cell data r) = SwarmState r"
  "Timestamp (parse_four_cell data r) = Timestamp r"
  by (simp_all add: parse_four_cell_def Let_def split: prod.splits)

lemma parse_swarm_frame [simp]:
  "MAC (parse_swarm data r) = MAC r"
  "RSSI (parse_swarm data r) = RSSI r"
  "Model (parse_swarm data r) = Model r"
  "ModelByte (parse_swarm data r) = ModelByte r"
  "FirmwareMinor (parse_swarm data r) = FirmwareMinor r"
  "FirmwareMajor (parse_swarm data r) = FirmwareMajor r"
  "Firmware (parse_swarm data r) = Firmware r"
  "BatteryPercent (parse_swarm data r) = BatteryPercent r"
  "SampleCounter (parse_swarm data r) = SampleCounter r"
  "TemperatureC (parse_swarm data r) = TemperatureC r"
  "TemperatureF (parse_swarm data r) = TemperatureF r"
  "HasHumidity (parse_swarm data r) = HasHumidity r"
  "HumidityPct (parse_swarm data r) = HumidityPct r"
  "HasWeight (parse_swarm data r) = HasWeight r"
  "WeightLeft (parse_swarm data r) = WeightLeft r"
  "WeightRight (parse_swarm data r) = WeightRight r"
  "WeightTotal (parse_swarm data r) = WeightTotal r"
  "Has4Cell (parse_swarm data r) = Has4Cell r"
  "WeightLeft2 (parse_swarm data r) = WeightLeft2 r"
  "WeightRight2 (parse_swarm data r) = WeightRight2 r"
  "HasRealtime (parse_swarm data r) = HasRealtime r"
  "RealtimeTempC (parse_swarm data r) = RealtimeTempC r"
  "RealtimeTempF (parse_swarm data r) = RealtimeTempF r"
  "RealtimeWeight (parse_swarm data r) = RealtimeWeight r"
  "Timestamp (parse_swarm data r) = Timestamp r"
  by (simp_all add: parse_swarm_def Let_def split: prod.splits)

lemma parse_extended_frame [simp]:
  "MAC (parse_extended data r) = MAC r"
  "RSSI (parse_extended data r) = RSSI r"
  "Model (parse_extended data r) = Model r"
  "ModelByte (parse_extended data r) = ModelByte r"
  "FirmwareMinor (parse_extended data r) = FirmwareMinor r"
  "FirmwareMajor (parse_extended data r) = FirmwareMajor r"
  "Firmware (parse_extended data r) = Firmware r"
  "BatteryPercent (parse_extended data r) = BatteryPercent r"
  "SampleCounter (parse_extended data r) = SampleCounter r"
  "TemperatureC (parse_extended data r) = TemperatureC r"
  "TemperatureF (parse_extended data r) = TemperatureF r"
  "HasHumidity (parse_extended data r) = HasHumidity r"
  "HumidityPct (parse_extended data r) = HumidityPct r"
  "HasWeight (parse_extended data r) = HasWeight r"
  "WeightLeft (parse_extended data r) = WeightLeft r"
  "WeightRight (parse_extended data r) = WeightRight r"
  "HasRealtime (parse_extended data r) = HasRealtime r"
  "RealtimeTempC (parse_extended data r) = RealtimeTempC r"
  "RealtimeTempF (parse_extended data r) = RealtimeTempF r"
  "RealtimeWeight (parse_extended data r) = RealtimeWeight r"
  "Timestamp (parse_extended data r) = Timestamp r"
  by (simp_all add: parse_extended_def)

lemma parse_realtime_weight_frame [simp]:
  "MAC (parse_realtime_weight data r) = MAC r"
  "RSSI (parse_realtime_weight data r) = RSSI r"
  "Model (parse_realtime_weight data r) = Model r"
  "ModelByte (parse_realtime_weight data r) = ModelByte r"
  "FirmwareMinor (parse_realtime_weight data r) = FirmwareMinor r"
  "FirmwareMajor (parse_realtime_weight data r) = FirmwareMajor r"
  "Firmware (parse_realtime_weight data r) = Firmware r"
  "BatteryPercent (parse_realtime_weight data r) = BatteryPercent r"
  "SampleCounter (parse_realtime_weight data r) = SampleCounter r"
  "TemperatureC (parse_realtime_weight data r) = TemperatureC r"
  "TemperatureF (parse_realtime_weight data r) = TemperatureF r"
  "HasHumidity (parse_realtime_weight data r) = HasHumidity r"
  "HumidityPct (parse_realtime_weight data r) = HumidityPct r"
  "HasWeight (parse_realtime_weight data r) = HasWeight r"
  "WeightLeft (parse_realtime_weight data r) = WeightLeft r"
  "WeightRight (parse_realtime_weight data r) = WeightRight r"
  "WeightTotal (parse_realtime_weight data r) = WeightTotal r"
  "Has4Cell (parse_realtime_weight data r) = Has4Cell r"
  "WeightLeft2 (parse_realtime_weight data r) = WeightLeft2 r"
  "WeightRight2 (parse_realtime_weight data r) = WeightRight2 r"
  "HasRealtime (parse_realtime_weight data r) = HasRealtime r"
  "RealtimeTempC (parse_realtime_weight data r) = RealtimeTempC r"
  "RealtimeTempF (parse_realtime_weight data r) = RealtimeTempF r"
  "HasSwarm (parse_realtime_weight data r) = HasSwarm r"
  "SwarmState (parse_realtime_weight data r) = SwarmState r"
  "Timestamp (parse_realtime_weight data r) = Timestamp r"
  by (simp_all add: parse_realtime_weight_def Let_def split: prod.splits)

lemma new_Reading_fields:
  "\<not> HasWeight (new_Reading mac rssi now)" "\<not> Has4Cell (new_Reading mac rssi now)"
  "\<not> HasRealtime (new_Reading mac rssi now)"
  "WeightLeft (new_Reading mac rssi now) = 0" "WeightRight (new_Reading mac rssi now) = 0"
  "WeightTotal (new_Reading mac rssi now) = 0" "WeightLeft2 (new_Reading mac rssi now) = 0"
  "WeightRight2 (new_Reading mac rssi now) = 0" "RealtimeWeight (new_Reading mac rssi now) = 0"
  "RealtimeTempC (new_Reading mac rssi now) = 0" "RealtimeTempF (new_Reading mac rssi now) = 0"
  by (simp_all add: new_Reading_def)

lemma header_fields:
  "ModelByte (parse_header data r) = data ! 0"
  "BatteryPercent (parse_header data r) = min (uint (data ! 4)) 100"
  by (simp_all add: parse_header_def)

lemma primary_temperature_fields:
  "TemperatureC (parse_primary_temperature data r) =
     round_100 (parseTemperature (ModelByte r) (LittleEndian_Uint16 (slice data 7 9)))"
  "TemperatureF (parse_primary_temperature data r) =
     round_10 (fahrenheit (TemperatureC (parse_primary_temperature data r)))"
  by (simp_all add: parse_primary_temperature_def Let_def)

lemma realtime_temperature_fields:
  "\<not> HasRealtime r \<Longrightarrow> HasRealtime (parse_realtime_temperature data r) \<Longrightarrow>
     RealtimeTempC (parse_realtime_temperature data r) =
       round_100 (parseTemperature (ModelByte r)
         (ucast (data ! 3) OR push_bit 8 (ucast (data ! 9)))) \<and>
     RealtimeTempF (parse_realtime_temperature data r) =
       round_10 (fahrenheit (RealtimeTempC (parse_realtime_temperature data r)))"
  "\<not> HasRealtime (parse_realtime_temperature data r) \<Longrightarrow>
     RealtimeTempC (parse_realtime_temperature data r) = RealtimeTempC r \<and>
     RealtimeTempF (parse_realtime_temperature data r) = RealtimeTempF r"
  by (auto simp: parse_realtime_temperature_def Let_def split: if_splits)

lemma weight_pair_fields:
  "HasWeight (parse_weight_pair data r) =
     (HasWeight r \<or> 14 \<le> length data \<and>
        (snd (parseWeight (ModelByte r) (LittleEndian_Uint16 (slice data 10 12))) \<or>
         snd (parseWeight (ModelByte r) (LittleEndian_Uint16 (slice data 12 14)))))"
  "\<not> HasWeight r \<Longrightarrow> HasWeight (parse_weight_pair data r) \<Longrightarrow>
     WeightLeft (parse_weight_pair data r) =
       round_100 (fst (parseWeight (ModelByte r) (LittleEndian_Uint16 (slice data 10 12)))) \<and>
     WeightRight (parse_weight_pair data r) =
       round_100 (fst (parseWeight (ModelByte r) (LittleEndian_Uint16 (slice data 12 14)))) \<and>
     WeightTotal (parse_weight_pair data r) =
       round_100 (fadd (WeightLeft (parse_weight_pair data r))
         (WeightRight (parse_weight_pair data r)))"
  "\<not> HasWeight (parse_weight_pair data r) \<Longrightarrow>
     WeightLeft (parse_weight_pair data r) = WeightLeft r \<and>
     WeightRight (parse_weight_pair data r) = WeightRight r \<and>
     WeightTotal (parse_weight_pair data r) = WeightTotal r"
  by (auto simp: parse_weight_pair_def Let_def split: prod.splits if_splits)

lemma four_cell_fields:
  "Has4Cell (parse_four_cell data r) =
     (Has4Cell r \<or> lookup_bool fourCellWeightModels (ModelByte r) \<and>
        (snd (parseWeight (ModelByte r) (LittleEndian_Uint16 (slice data 15 17))) \<or>
         snd (parseWeight (ModelByte r) (LittleEndian_Uint16 (slice data 17 19)))))"
  "\<not> Has4Cell r \<Longrightarrow> Has4Cell (parse_four_cell data r) \<Longrightarrow>
     WeightLeft2 (parse_four_cell data r) =
       round_100 (fst (parseWeight (ModelByte r) (LittleEndian_Uint16 (slice data 15 17)))) \<and>
     WeightRight2 (parse_four_cell data r) =
       round_100 (fst (parseWeight (ModelByte r) (LittleEndian_Uint16 (slice data 17 19)))) \<and>
     WeightTotal (parse_four_cell data r) =
       round_100 (fadd (fadd (fadd (WeightLeft r) (WeightRight r))
         (WeightLeft2 (parse_four_cell data r))) (WeightRight2 (parse_four_cell data r)))"
  "\<not> Has4Cell (parse_four_cell data r) \<Longrightarrow>
     WeightLeft2 (parse_four_cell data r) = WeightLeft2 r \<and>
     WeightRight2 (parse_four_cell data r) = WeightRight2 r \<and>
     WeightTotal (parse_four_cell data r) = WeightTotal r"
  by (auto simp: parse_four_cell_def Let_def split: prod.splits if_splits)

lemma realtime_weight_field:
  "RealtimeWeight (parse_realtime_weight data r) \<noteq> RealtimeWeight r \<Longrightarrow>
     lookup_bool weightModels (ModelByte r)"
  by (simp add: parse_realtime_weight_def Let_def split: if_splits)

lemma parseAdvertisement_short:
  "length data < 15 \<Longrightarrow>
   parseAdvertisement u now mac rssi data = Inl (payload_too_short (length data))"
  by (simp add: parseAdvertisement_def)

lemma parseAdvertisement_long:
  "15 \<le> length data \<Longrightarrow>
   parseAdvertisement u now mac rssi data =
     Inr (parse_realtime_weight data (parse_extended data (parse_humidity data
       (parse_weight_pair data (parse_realtime_temperature data
         (parse_primary_temperature data (parse_header data
           (new_Reading (ToUpper u mac) rssi now))))))))"
  by (simp add: parseAdvertisement_def Let_def)

lemma parsed_MAC:
  "15 \<le> length data \<Longrightarrow>
   map_sum id MAC (parseAdvertisement u now mac rssi data) = Inr (ToUpper u mac)"
  by (simp add: parseAdvertisement_long parse_header_def new_Reading_def)

lemma parsed_humidity:
  assumes "15 \<le> length data"
  shows "map_sum id HasHumidity (parseAdvertisement u now mac rssi data)
           = Inr (data ! 0 \<notin> {41, 47, 49, 52} \<and> uint (data ! 14) \<le> 100)"
    and "map_sum id HumidityPct (parseAdvertisement u now mac rssi data)
           = Inr (if data ! 0 \<notin> {41, 47, 49, 52} \<and> uint (data ! 14) \<le> 100
                  then uint (data ! 14) else 0)"
  using assms
  by (simp_all add: parseAdvertisement_long parse_humidity_def parse_header_def Let_def
      noHumidityModels_iff new_Reading_def)

lemma parsed_HasWeight:
  "15 \<le> length data \<Longrightarrow>
   map_sum id HasWeight (parseAdvertisement u now mac rssi data) =
     Inr (snd (parseWeight (data ! 0) (LittleEndian_Uint16 (slice data 10 12))) \<or>
          snd (parseWeight (data ! 0) (LittleEndian_Uint16 (slice data 12 14))))"
  by (simp add: parseAdvertisement_long weight_pair_fields(1) header_fields new_Reading_fields)

lemma parsed_Has4Cell:
  "19 \<le> length data \<Longrightarrow>
   map_sum id Has4Cell (parseAdvertisement u now mac rssi data) =
     Inr (lookup_bool fourCellWeightModels (data ! 0) \<and>
          (snd (parseWeight (data ! 0) (LittleEndian_Uint16 (slice data 15 17))) \<or>
           snd (parseWeight (data ! 0) (LittleEndian_Uint16 (slice data 17 19)))))"
  by (simp add: parseAdvertisement_long parse_extended_def four_cell_fields(1) header_fields
      new_Reading_fields)

lemma parsed_HasRealtime:
  "15 \<le> length data \<Longrightarrow>
   map_sum id HasRealtime (parseAdvertisement u now mac rssi data) =
     Inr (\<not> lookup_bool legacyTempModels (data ! 0) \<and>
          (ucast (data ! 3) OR push_bit 8 (ucast (data ! 9)) :: uint16) \<noteq> 0xFFFF \<and>
          (ucast (data ! 3) OR push_bit 8 (ucast (data ! 9)) :: uint16) \<noteq> 0)"
  by (simp add: parseAdvertisement_long parse_realtime_temperature_def header_fields
      new_Reading_fields Let_def)

section \<open>Payload length and battery\<close>

text \<open>
  C3. \<open>parseAdvertisement\<close> returns an error exactly when the payload has fewer than 15
  bytes, and the error is the payload-too-short message with the payload's length in it.
  Every payload of 15 bytes or more gives a \<open>Reading\<close>. A payload that ends before the
  optional tail leaves the tail's fields at their zero values: the second weight pair below
  19 bytes, the swarm state below 20 bytes, the realtime weight below 21 bytes.
\<close>

theorem parseAdvertisement_length:
  "isl (parseAdvertisement u now mac rssi data) = (length data < 15) \<and>
   (length data < 15 \<longrightarrow>
      parseAdvertisement u now mac rssi data =
        Inl (''payload too short: got '' @ fmt_d (length data) @ '' bytes, need at least 15'')) \<and>
   (15 \<le> length data \<longrightarrow>
      (\<exists>r. parseAdvertisement u now mac rssi data = Inr r \<and>
         (length data < 19 \<longrightarrow> \<not> Has4Cell r \<and> WeightLeft2 r = 0 \<and> WeightRight2 r = 0) \<and>
         (length data < 20 \<longrightarrow> \<not> HasSwarm r \<and> SwarmState r = 0) \<and>
         (length data < 21 \<longrightarrow> RealtimeWeight r = 0)))"
proof (intro conjI impI)
  show "isl (parseAdvertisement u now mac rssi data) = (length data < 15)"
    by (cases "length data < 15") (simp_all add: parseAdvertisement_short parseAdvertisement_long)
next
  assume "length data < 15"
  then show "parseAdvertisement u now mac rssi data =
      Inl (''payload too short: got '' @ fmt_d (length data) @ '' bytes, need at least 15'')"
    by (simp add: parseAdvertisement_short payload_too_short_def)
next
  assume "15 \<le> length data"
  then show "\<exists>r. parseAdvertisement u now mac rssi data = Inr r \<and>
         (length data < 19 \<longrightarrow> \<not> Has4Cell r \<and> WeightLeft2 r = 0 \<and> WeightRight2 r = 0) \<and>
         (length data < 20 \<longrightarrow> \<not> HasSwarm r \<and> SwarmState r = 0) \<and>
         (length data < 21 \<longrightarrow> RealtimeWeight r = 0)"
    by (simp add: parseAdvertisement_long parse_extended_def parse_swarm_def
        parse_realtime_weight_def new_Reading_def)
qed

theorem parseAdvertisement_length_witness:
  "parseAdvertisement id 0 ''AA:BB:CC:DD:EE:FF'' 0 [1, 2] =
     Inl ''payload too short: got 2 bytes, need at least 15'' \<and>
   \<not> isl (parseAdvertisement id 0 ''AA:BB:CC:DD:EE:FF'' 0
      [49, 5, 4, 0, 100, 244, 1, 88, 27, 0, 231, 131, 231, 131, 0]) \<and>
   map_sum id RealtimeWeight (parseAdvertisement id 0 ''AA:BB:CC:DD:EE:FF'' 0
      [49, 5, 4, 0, 100, 244, 1, 88, 27, 0, 231, 131, 231, 131, 0]) = Inr 0"
  using parseAdvertisement_length [of id 0 "''AA:BB:CC:DD:EE:FF''" 0 "[1, 2]"]
    parseAdvertisement_length [of id 0 "''AA:BB:CC:DD:EE:FF''" 0
      "[49, 5, 4, 0, 100, 244, 1, 88, 27, 0, 231, 131, 231, 131, 0]"]
  by (auto simp: fmt_d.simps digit_char_def)

text \<open>
  C8. For every payload of at least 15 bytes the \<open>Reading\<close>'s battery percentage is the
  smaller of the byte at index 4 and 100: it lies between 0 and 100, and a byte above 100
  gives exactly 100.
\<close>

theorem parseAdvertisement_battery:
  "15 \<le> length data \<longrightarrow>
     (\<exists>r. parseAdvertisement u now mac rssi data = Inr r \<and>
        BatteryPercent r = min (uint (data ! 4)) 100 \<and>
        0 \<le> BatteryPercent r \<and> BatteryPercent r \<le> 100 \<and>
        (100 < uint (data ! 4) \<longrightarrow> BatteryPercent r = 100))"
  by (simp add: parseAdvertisement_long parse_header_def)

theorem parseAdvertisement_battery_witness:
  "map_sum id BatteryPercent (parseAdvertisement id 0 ''EE:FF:00:11:22:33'' 0
      [56, 1, 1, 0, 120, 1, 0, 136, 19, 0, 255, 127, 255, 127, 50, 255, 127, 255, 127, 0, 0])
   = Inr 100"
  using parseAdvertisement_battery [of
      "[56, 1, 1, 0, 120, 1, 0, 136, 19, 0, 255, 127, 255, 127, 50, 255, 127, 255, 127, 0, 0]"
      id 0 "''EE:FF:00:11:22:33''" 0]
  by auto

section \<open>Humidity\<close>

text \<open>
  C6, as stated, fails: model 42 is not in the no-humidity subset, and a payload whose byte
  at index 14 is 101 gives a \<open>Reading\<close> without humidity.
\<close>

theorem humidity_present_counterexample:
  "(42 :: byte) \<notin> {41, 47, 49, 52} \<and>
   [42, 10, 3, 0, 68, 89, 0, 42, 96, 0, 255, 127, 255, 127, 101 :: byte] ! 14 = 101 \<and>
   map_sum id HasHumidity (parseAdvertisement id 0 ''A3:42:1B:90:03:00'' 0
     [42, 10, 3, 0, 68, 89, 0, 42, 96, 0, 255, 127, 255, 127, 101]) = Inr False \<and>
   map_sum id HumidityPct (parseAdvertisement id 0 ''A3:42:1B:90:03:00'' 0
     [42, 10, 3, 0, 68, 89, 0, 42, 96, 0, 255, 127, 255, 127, 101]) = Inr 0"
  by (simp add: parsed_humidity)

text \<open>
  C6, amended. For every payload of at least 15 bytes: for a model in the no-humidity
  subset (41, 47, 49, 52) humidity is absent whatever the byte at index 14 is; for every
  other model humidity is present, with the byte at index 14 as its percentage, exactly
  when that byte is at most 100, and absent when the byte is above 100.
\<close>

theorem parseAdvertisement_humidity:
  "15 \<le> length data \<longrightarrow>
     (\<exists>r. parseAdvertisement u now mac rssi data = Inr r \<and>
        (data ! 0 \<in> {41, 47, 49, 52} \<longrightarrow> \<not> HasHumidity r \<and> HumidityPct r = 0) \<and>
        (data ! 0 \<notin> {41, 47, 49, 52} \<longrightarrow> uint (data ! 14) \<le> 100 \<longrightarrow>
           HasHumidity r \<and> HumidityPct r = uint (data ! 14)) \<and>
        (data ! 0 \<notin> {41, 47, 49, 52} \<longrightarrow> 100 < uint (data ! 14) \<longrightarrow>
           \<not> HasHumidity r \<and> HumidityPct r = 0))"
  by (simp add: parseAdvertisement_long parse_humidity_def parse_header_def Let_def
      noHumidityModels_iff new_Reading_def)

theorem parseAdvertisement_humidity_witness:
  "map_sum id HasHumidity (parseAdvertisement id 0 ''11:22:33:44:55:66'' 0
     [49, 1, 1, 0, 50, 1, 0, 136, 19, 0, 255, 127, 255, 127, 75, 255, 127, 255, 127, 0, 0])
     = Inr False \<and>
   map_sum id HasHumidity (parseAdvertisement id 0 ''EE:FF:00:11:22:33'' 0
     [56, 1, 1, 0, 150, 1, 0, 136, 19, 0, 255, 127, 255, 127, 64, 255, 127, 255, 127, 0, 0])
     = Inr True \<and>
   map_sum id HumidityPct (parseAdvertisement id 0 ''EE:FF:00:11:22:33'' 0
     [56, 1, 1, 0, 150, 1, 0, 136, 19, 0, 255, 127, 255, 127, 64, 255, 127, 255, 127, 0, 0])
     = Inr 64 \<and>
   map_sum id HasHumidity (parseAdvertisement id 0 ''A3:42:1B:90:03:00'' 0
     [42, 10, 3, 0, 68, 89, 0, 42, 96, 0, 255, 127, 255, 127, 200]) = Inr False"
  using
    parseAdvertisement_humidity [of
      "[49, 1, 1, 0, 50, 1, 0, 136, 19, 0, 255, 127, 255, 127, 75, 255, 127, 255, 127, 0, 0]"
      id 0 "''11:22:33:44:55:66''" 0]
    parseAdvertisement_humidity [of
      "[56, 1, 1, 0, 150, 1, 0, 136, 19, 0, 255, 127, 255, 127, 64, 255, 127, 255, 127, 0, 0]"
      id 0 "''EE:FF:00:11:22:33''" 0]
    parseAdvertisement_humidity [of
      "[42, 10, 3, 0, 68, 89, 0, 42, 96, 0, 255, 127, 255, 127, 200]"
      id 0 "''A3:42:1B:90:03:00''" 0]
  by auto

section \<open>Weight fields\<close>

text \<open>
  C7. In every \<open>Reading\<close> the parser returns, one flag governs each cell pair. With
  \<open>HasWeight\<close> both \<open>WeightLeft\<close> and \<open>WeightRight\<close> are assigned, without it both are unset;
  with \<open>Has4Cell\<close> both \<open>WeightLeft2\<close> and \<open>WeightRight2\<close> are assigned, without it both are
  unset. A flag is set only for a weight-capable model (\<open>Has4Cell\<close> only for a four-cell
  one), and for a model without the weight capability no weight field is set at all:
  neither flag, none of the four cells, not the total, not the realtime weight.
\<close>

theorem parseAdvertisement_weight_groups:
  "15 \<le> length data \<longrightarrow>
     (\<exists>r. parseAdvertisement u now mac rssi data = Inr r \<and>
        (HasWeight r \<longrightarrow>
           lookup_bool weightModels (data ! 0) \<and>
           WeightLeft r =
             round_100 (fst (parseWeight (data ! 0) (LittleEndian_Uint16 (slice data 10 12)))) \<and>
           WeightRight r =
             round_100 (fst (parseWeight (data ! 0) (LittleEndian_Uint16 (slice data 12 14))))) \<and>
        (\<not> HasWeight r \<longrightarrow> WeightLeft r = 0 \<and> WeightRight r = 0) \<and>
        (Has4Cell r \<longrightarrow>
           lookup_bool fourCellWeightModels (data ! 0) \<and> lookup_bool weightModels (data ! 0) \<and>
           WeightLeft2 r =
             round_100 (fst (parseWeight (data ! 0) (LittleEndian_Uint16 (slice data 15 17)))) \<and>
           WeightRight2 r =
             round_100 (fst (parseWeight (data ! 0) (LittleEndian_Uint16 (slice data 17 19))))) \<and>
        (\<not> Has4Cell r \<longrightarrow> WeightLeft2 r = 0 \<and> WeightRight2 r = 0) \<and>
        (\<not> HasWeight r \<longrightarrow> \<not> Has4Cell r \<longrightarrow> WeightTotal r = 0) \<and>
        (\<not> lookup_bool weightModels (data ! 0) \<longrightarrow>
           \<not> HasWeight r \<and> \<not> Has4Cell r \<and> WeightLeft r = 0 \<and> WeightRight r = 0 \<and>
           WeightLeft2 r = 0 \<and> WeightRight2 r = 0 \<and> WeightTotal r = 0 \<and> RealtimeWeight r = 0))"
  (is "_ \<longrightarrow> (\<exists>r. ?P r)")
proof
  assume len: "15 \<le> length data"
  define r3 where "r3 = parse_realtime_temperature data (parse_primary_temperature data
    (parse_header data (new_Reading (ToUpper u mac) rssi now)))"
  define r4 where "r4 = parse_weight_pair data r3"
  define r5 where "r5 = parse_humidity data r4"
  define r6 where "r6 = parse_extended data r5"
  define r where "r = parse_realtime_weight data r6"
  have res: "parseAdvertisement u now mac rssi data = Inr r"
    using len by (simp add: parseAdvertisement_long r_def r6_def r5_def r4_def r3_def)
  have m3: "ModelByte r3 = data ! 0" by (simp add: r3_def header_fields)
  have m5: "ModelByte r5 = data ! 0" by (simp add: r5_def r4_def m3)
  have m6: "ModelByte r6 = data ! 0" by (simp add: r6_def m5)
  have z3: "\<not> HasWeight r3" "\<not> Has4Cell r3" "WeightLeft r3 = 0" "WeightRight r3 = 0"
    "WeightTotal r3 = 0" "WeightLeft2 r3 = 0" "WeightRight2 r3 = 0" "RealtimeWeight r3 = 0"
    by (simp_all add: r3_def new_Reading_fields)
  have pair: "HasWeight r = HasWeight r4" "WeightLeft r = WeightLeft r4"
    "WeightRight r = WeightRight r4"
    by (simp_all add: r_def r6_def r5_def)
  have w4: "HasWeight r4 \<longrightarrow> lookup_bool weightModels (data ! 0) \<and>
      WeightLeft r4 =
        round_100 (fst (parseWeight (data ! 0) (LittleEndian_Uint16 (slice data 10 12)))) \<and>
      WeightRight r4 =
        round_100 (fst (parseWeight (data ! 0) (LittleEndian_Uint16 (slice data 12 14))))"
    using weight_pair_fields(1,2) [where data = data and r = r3] z3(1) parseWeight_valid [of "data ! 0"]
    unfolding r4_def [symmetric] m3 by blast
  have n4: "\<not> HasWeight r4 \<longrightarrow> WeightLeft r4 = 0 \<and> WeightRight r4 = 0 \<and> WeightTotal r4 = 0"
    using weight_pair_fields(3) [where data = data and r = r3] z3 unfolding r4_def [symmetric] by simp
  have ext: "Has4Cell r = Has4Cell r6" "WeightLeft2 r = WeightLeft2 r6"
    "WeightRight2 r = WeightRight2 r6" "WeightTotal r = WeightTotal r6"
    by (simp_all add: r_def)
  have z5: "\<not> Has4Cell r5" "WeightLeft2 r5 = 0" "WeightRight2 r5 = 0"
    "WeightTotal r5 = WeightTotal r4" "RealtimeWeight r6 = 0"
    by (simp_all add: r6_def r5_def r4_def z3)
  have w6: "Has4Cell r6 \<longrightarrow> lookup_bool fourCellWeightModels (data ! 0) \<and>
      WeightLeft2 r6 =
        round_100 (fst (parseWeight (data ! 0) (LittleEndian_Uint16 (slice data 15 17)))) \<and>
      WeightRight2 r6 =
        round_100 (fst (parseWeight (data ! 0) (LittleEndian_Uint16 (slice data 17 19))))"
  proof (cases "19 \<le> length data")
    case True
    then have e: "Has4Cell r6 = Has4Cell (parse_four_cell data r5)"
      "WeightLeft2 r6 = WeightLeft2 (parse_four_cell data r5)"
      "WeightRight2 r6 = WeightRight2 (parse_four_cell data r5)"
      by (simp_all add: r6_def parse_extended_def)
    show ?thesis
      using four_cell_fields(1,2) [where data = data and r = r5] z5(1) unfolding e m5 by blast
  next
    case False
    then show ?thesis using z5 by (simp add: r6_def parse_extended_def)
  qed
  have n6: "\<not> Has4Cell r6 \<longrightarrow> WeightLeft2 r6 = 0 \<and> WeightRight2 r6 = 0 \<and>
      WeightTotal r6 = WeightTotal r4"
  proof (cases "19 \<le> length data")
    case True
    then have e: "Has4Cell r6 = Has4Cell (parse_four_cell data r5)"
      "WeightLeft2 r6 = WeightLeft2 (parse_four_cell data r5)"
      "WeightRight2 r6 = WeightRight2 (parse_four_cell data r5)"
      "WeightTotal r6 = WeightTotal (parse_four_cell data r5)"
      by (simp_all add: r6_def parse_extended_def)
    show ?thesis
      using four_cell_fields(3) [where data = data and r = r5] z5 unfolding e by simp
  next
    case False
    then show ?thesis using z5 by (simp add: r6_def parse_extended_def)
  qed
  have rt: "\<not> lookup_bool weightModels (data ! 0) \<longrightarrow> RealtimeWeight r = 0"
    using realtime_weight_field [where data = data and r = r6] z5(5) unfolding r_def [symmetric] m6 by auto
  have "?P r"
    unfolding pair ext
    using res w4 n4 w6 n6 rt fourCell_weight [of "data ! 0"] by auto
  then show "\<exists>r. ?P r" ..
qed

lemma W3_payload:
  "LittleEndian_Uint16 (slice
     [49, 5, 4, 0, 100, 244, 1, 88, 27, 0, 231, 131, 231, 131, 0, 231, 131, 231, 131, 0, 0]
     10 12) = 33767"
  "LittleEndian_Uint16 (slice
     [49, 5, 4, 0, 100, 244, 1, 88, 27, 0, 231, 131, 231, 131, 0, 231, 131, 231, 131, 0, 0]
     12 14) = 33767"
  "LittleEndian_Uint16 (slice
     [49, 5, 4, 0, 100, 244, 1, 88, 27, 0, 231, 131, 231, 131, 0, 231, 131, 231, 131, 0, 0]
     15 17) = 33767"
  "LittleEndian_Uint16 (slice
     [49, 5, 4, 0, 100, 244, 1, 88, 27, 0, 231, 131, 231, 131, 0, 231, 131, 231, 131, 0, 0]
     17 19) = 33767"
  by (simp_all add: LittleEndian_Uint16_def slice_def)

lemma parseWeight_10kg: "parseWeight 49 33767 = (10, True)"
  by (simp add: parseWeight_def weightModels_iff weightSentinels_iff fsub_32767 fdiv_def)

lemma round_100_10: "round_100 10 = 10"
  by (simp add: round_100_def fdiv_def fmul_def)

theorem parseAdvertisement_weight_groups_witness:
  "map_sum id HasWeight (parseAdvertisement id 0 ''C1:22:33:44:55:66'' 0
     [49, 5, 4, 0, 100, 244, 1, 88, 27, 0, 231, 131, 231, 131, 0, 231, 131, 231, 131, 0, 0])
     = Inr True \<and>
   map_sum id WeightLeft (parseAdvertisement id 0 ''C1:22:33:44:55:66'' 0
     [49, 5, 4, 0, 100, 244, 1, 88, 27, 0, 231, 131, 231, 131, 0, 231, 131, 231, 131, 0, 0])
     = Inr 10 \<and>
   map_sum id WeightRight2 (parseAdvertisement id 0 ''C1:22:33:44:55:66'' 0
     [49, 5, 4, 0, 100, 244, 1, 88, 27, 0, 231, 131, 231, 131, 0, 231, 131, 231, 131, 0, 0])
     = Inr 10 \<and>
   map_sum id WeightTotal (parseAdvertisement id 0 ''A3:42:1B:90:03:00'' 0
     [42, 10, 3, 0, 68, 89, 0, 42, 96, 0, 231, 131, 231, 131, 64, 231, 131, 231, 131, 231, 131])
     = Inr 0"
proof -
  define w3 :: "byte list" where
    "w3 = [49, 5, 4, 0, 100, 244, 1, 88, 27, 0, 231, 131, 231, 131, 0, 231, 131, 231, 131, 0, 0]"
  define th :: "byte list" where
    "th = [42, 10, 3, 0, 68, 89, 0, 42, 96, 0, 231, 131, 231, 131, 64, 231, 131, 231, 131, 231, 131]"
  have len: "15 \<le> length w3" "19 \<le> length w3" "15 \<le> length th"
    by (simp_all add: w3_def th_def)
  have m: "w3 ! 0 = 49" "th ! 0 = 42" by (simp_all add: w3_def th_def)
  have flags: "map_sum id HasWeight (parseAdvertisement id 0 ''C1:22:33:44:55:66'' 0 w3) = Inr True"
    "map_sum id Has4Cell (parseAdvertisement id 0 ''C1:22:33:44:55:66'' 0 w3) = Inr True"
    unfolding parsed_HasWeight [OF len(1)] parsed_Has4Cell [OF len(2)] m
    unfolding w3_def W3_payload parseWeight_10kg
    by (simp_all add: fourCellWeightModels_iff)
  from parseAdvertisement_weight_groups [of w3 id 0 "''C1:22:33:44:55:66''" 0] len(1) flags
  have a: "map_sum id HasWeight (parseAdvertisement id 0 ''C1:22:33:44:55:66'' 0 w3) = Inr True \<and>
    map_sum id WeightLeft (parseAdvertisement id 0 ''C1:22:33:44:55:66'' 0 w3) = Inr 10 \<and>
    map_sum id WeightRight2 (parseAdvertisement id 0 ''C1:22:33:44:55:66'' 0 w3) = Inr 10"
    unfolding m unfolding w3_def W3_payload parseWeight_10kg
    by (auto simp: round_100_10)
  from parseAdvertisement_weight_groups [of th id 0 "''A3:42:1B:90:03:00''" 0] len(3)
  have b: "map_sum id WeightTotal (parseAdvertisement id 0 ''A3:42:1B:90:03:00'' 0 th) = Inr 0"
    unfolding m by (auto simp: weightModels_iff)
  from a b show ?thesis unfolding w3_def th_def by simp
qed

section \<open>Rounding of the stored values\<close>

lemma math_Round_error: "\<bar>math_Round z - z\<bar> \<le> 1 / 2"
proof (cases "z < 0")
  case True
  define f where "f = \<lfloor>- z + 1 / 2\<rfloor>"
  have "of_int f \<le> - z + 1 / 2" "- z + 1 / 2 < of_int f + 1" unfolding f_def by linarith+
  moreover have "math_Round z = - of_int f" using True by (simp add: math_Round_def f_def)
  ultimately show ?thesis by linarith
next
  case False
  define f where "f = \<lfloor>z + 1 / 2\<rfloor>"
  have "of_int f \<le> z + 1 / 2" "z + 1 / 2 < of_int f + 1" unfolding f_def by linarith+
  moreover have "math_Round z = of_int f" using False by (simp add: math_Round_def f_def)
  ultimately show ?thesis by linarith
qed

text \<open>
  The binary64 quotient of an integer by \<open>D\<close>, multiplied by \<open>D\<close>, lies within an eighth of
  the integer.
\<close>

lemma quotient_near:
  assumes k: "\<bar>of_int k :: real\<bar> \<le> 2 ^ 50" and D: "0 < D"
  shows "\<bar>fl (of_int k / D) * D - of_int k\<bar> \<le> 1 / 8"
proof -
  define K :: real where "K = of_int k"
  define a where "a = fl (K / D)"
  have "\<bar>a - K / D\<bar> \<le> \<bar>K / D\<bar> / 2 ^ 53" unfolding a_def by (rule fl_error)
  then have e1: "\<bar>a - K / D\<bar> * D \<le> \<bar>K / D\<bar> / 2 ^ 53 * D"
    using D by (intro mult_right_mono) simp_all
  have e2: "\<bar>a - K / D\<bar> * D = \<bar>a * D - K\<bar>"
  proof -
    have "\<bar>a - K / D\<bar> * D = \<bar>(a - K / D) * D\<bar>" using D by (simp add: abs_mult)
    also have "(a - K / D) * D = a * D - K" using D by (simp add: algebra_simps)
    finally show ?thesis .
  qed
  have e3: "\<bar>K / D\<bar> / 2 ^ 53 * D = \<bar>K\<bar> / 2 ^ 53" using D by simp
  have "\<bar>a * D - K\<bar> \<le> \<bar>K\<bar> / 2 ^ 53" using e1 unfolding e2 e3 .
  also have "\<dots> \<le> 2 ^ 50 / 2 ^ 53" using k by (simp add: K_def divide_right_mono)
  also have "\<dots> = 1 / 8" by simp
  finally show ?thesis by (simp add: a_def K_def)
qed

lemma quotient_round:
  assumes "\<bar>of_int k :: real\<bar> \<le> 2 ^ 50" and "0 < D"
  shows "round (fl (of_int k / D) * D) = k"
  using quotient_near [OF assms] by (intro round_unique') simp

lemma quotient_decimal:
  assumes "\<bar>of_int k :: real\<bar> \<le> 2 ^ 50"
  shows "decimal_places d (fl (of_int k / 10 ^ d))"
    and "round (fl (of_int k / 10 ^ d) * 10 ^ d) = k"
proof -
  show r: "round (fl (of_int k / 10 ^ d) * 10 ^ d) = k"
    using assms by (intro quotient_round) simp_all
  show "decimal_places d (fl (of_int k / 10 ^ d))"
    unfolding decimal_places_def r ..
qed

lemma decimal_0: "decimal_places d 0"
  by (simp add: decimal_places_def)

text \<open>
  What \<^verbatim>\<open>math.Round(y * D) / D\<close> computes for \<open>D = 10 ^ d\<close>: \<open>y\<close> rounded to \<open>d\<close> places.
\<close>

lemma round_places:
  assumes y: "\<bar>y\<bar> \<le> B" and B: "B \<le> 2 ^ 40" and d: "d \<le> 2"
  defines "R \<equiv> fdiv (math_Round (fmul y (10 ^ d))) (10 ^ d)"
  shows "rounding_of d y R" and "\<bar>R\<bar> \<le> 4 * B + 2"
proof -
  define D :: real where "D = 10 ^ d"
  have "d = 0 \<or> d = 1 \<or> d = 2" using d by linarith
  then have D: "1 \<le> D" "D \<le> 100" by (auto simp: D_def)
  have B0: "0 \<le> B" using y by linarith
  have "\<bar>y * D\<bar> \<le> B * D" using y D by (simp add: abs_mult mult_right_mono)
  then have z: "\<bar>fmul y D\<bar> \<le> 2 * (B * D)" unfolding fmul_def by (rule fl_bound)
  obtain k where k: "math_Round (fmul y D) = of_int k"
    and kb: "\<bar>of_int k :: real\<bar> \<le> \<bar>fmul y D\<bar> + 1"
    using math_Round_int [of "fmul y D"] by blast
  have kB: "\<bar>of_int k :: real\<bar> \<le> 2 * (B * D) + 1" using kb z by linarith
  have R: "R = fl (of_int k / D)" by (simp add: R_def k fdiv_def D_def [symmetric])
  have "B * D \<le> 2 ^ 40 * 100"
    using B D B0 by (intro mult_mono) simp_all
  then have k50: "\<bar>of_int k :: real\<bar> \<le> 2 ^ 50" using kB by simp
  note q = quotient_decimal [OF k50, of d, folded D_def, folded R]
  have "\<bar>of_int k - fmul y D\<bar> \<le> 1 / 2"
    using math_Round_error [of "fmul y D"] unfolding k .
  moreover have "\<bar>fmul y D - y * D\<bar> \<le> \<bar>y * D\<bar> / 2 ^ 53"
    unfolding fmul_def by (rule fl_error)
  ultimately have "\<bar>of_int k - y * D\<bar> \<le> 1 / 2 + \<bar>y * D\<bar> / 2 ^ 53" by linarith
  then show "rounding_of d y R"
    using q by (simp add: rounding_of_def D_def)
  have "\<bar>of_int k / D\<bar> = \<bar>of_int k :: real\<bar> / D" using D by simp
  also have "\<dots> \<le> (2 * (B * D) + 1) / D" using kB D by (simp add: divide_right_mono)
  also have "\<dots> = 2 * B + 1 / D" using D by (simp add: field_simps)
  also have "\<dots> \<le> 2 * B + 1" using D by (simp add: divide_le_eq)
  finally have "\<bar>fl (of_int k / D)\<bar> \<le> 2 * (2 * B + 1)" by (rule fl_bound)
  then show "\<bar>R\<bar> \<le> 4 * B + 2" by (simp add: R)
qed

lemma round_100_spec:
  "\<bar>y\<bar> \<le> B \<Longrightarrow> B \<le> 2 ^ 40 \<Longrightarrow> rounding_of 2 y (round_100 y) \<and> \<bar>round_100 y\<bar> \<le> 4 * B + 2"
  using round_places [of y B 2] by (simp add: round_100_def)

lemma round_10_spec:
  "\<bar>y\<bar> \<le> B \<Longrightarrow> B \<le> 2 ^ 40 \<Longrightarrow> rounding_of 1 y (round_10 y) \<and> \<bar>round_10 y\<bar> \<le> 4 * B + 2"
  using round_places [of y B 1] by (simp add: round_10_def)


text \<open>
  When \<open>x * 10 ^ d\<close> lies within two fifths of an integer, \<open>x\<close> rounded to \<open>d\<close> places is
  the binary64 quotient of that integer.
\<close>

lemma rounding_of_near:
  assumes r: "rounding_of d x v" and n: "\<bar>x * 10 ^ d - of_int n\<bar> \<le> 2 / 5"
    and b: "\<bar>of_int n :: real\<bar> \<le> 2 ^ 40"
  shows "v = fl (of_int n / 10 ^ d)"
proof -
  define k where "k = round (v * 10 ^ d)"
  have v: "v = fl (of_int k / 10 ^ d)"
    and e: "\<bar>of_int k - x * 10 ^ d\<bar> \<le> 1 / 2 + \<bar>x * 10 ^ d\<bar> / 2 ^ 53"
    using r by (simp_all add: rounding_of_def decimal_places_def k_def)
  have "\<bar>x * 10 ^ d\<bar> \<le> 2 ^ 40 + 2 / 5" using n b by linarith
  then have "\<bar>x * 10 ^ d\<bar> / 2 ^ 53 \<le> (2 ^ 40 + 2 / 5) / 2 ^ 53"
    by (rule divide_right_mono) simp
  also have "\<dots> < 1 / 20" by simp
  finally have "\<bar>real_of_int k - of_int n\<bar> < 1" using e n by linarith
  then have "\<bar>real_of_int (k - n)\<bar> < 1" by simp
  then have "\<bar>k - n\<bar> < 1" by linarith
  then have "k = n" by simp
  with v show ?thesis by simp
qed

lemma fl_abs_error:
  assumes "\<bar>u\<bar> \<le> 2 ^ 20"
  shows "u - 1 / 8589934592 \<le> fl u" and "fl u \<le> u + 1 / 8589934592"
proof -
  have "\<bar>u\<bar> / 2 ^ 53 \<le> 2 ^ 20 / 2 ^ 53" using assms by (rule divide_right_mono) simp
  then have "\<bar>fl u - u\<bar> \<le> 1 / 8589934592" using fl_error [of u] by simp
  then show "u - 1 / 8589934592 \<le> fl u" and "fl u \<le> u + 1 / 8589934592"
    unfolding abs_le_iff by linarith+
qed

lemma round_100_near:
  assumes n: "\<bar>s * 100 - of_int K\<bar> \<le> 1 / 4" and b: "\<bar>of_int K :: real\<bar> \<le> 2 ^ 40"
  shows "round_100 s = fl (of_int K / 100)"
proof -
  have "\<bar>s * 100\<bar> \<le> 2 ^ 40 + 1 / 4" using n b by linarith
  then have "\<bar>s * 100\<bar> / 2 ^ 53 \<le> (2 ^ 40 + 1 / 4) / 2 ^ 53"
    by (rule divide_right_mono) simp
  also have "\<dots> < 1 / 8" by simp
  finally have "\<bar>fl (s * 100) - s * 100\<bar> < 1 / 8" using fl_error [of "s * 100"] by linarith
  with n have "\<bar>fl (s * 100) - of_int K\<bar> < 1 / 2" by linarith
  then have "math_Round (fl (s * 100)) = of_int K" by (rule math_Round_near)
  then show ?thesis by (simp add: round_100_def fmul_def fdiv_def)
qed

text \<open>
  A value with two decimal places, as a weight field holds it, against its decimal.
\<close>

lemma decimal_repr:
  assumes d: "decimal_places 2 x" and b: "\<bar>x\<bar> \<le> 8002"
  shows "of_int (round (x * 100)) / 100 - 1 / 8589934592 \<le> x"
    and "x \<le> of_int (round (x * 100)) / 100 + 1 / 8589934592"
    and "\<bar>of_int (round (x * 100)) :: real\<bar> \<le> 800201"
proof -
  define a where "a = round (x * 100)"
  have x: "x = fl (of_int a / 100)" using d by (simp add: decimal_places_def a_def)
  have "\<bar>of_int a - x * 100\<bar> \<le> 1 / 2" unfolding a_def by (rule of_int_round_abs_le)
  with b show a: "\<bar>of_int a :: real\<bar> \<le> 800201" by linarith
  then have u: "\<bar>real_of_int a / 100\<bar> \<le> 2 ^ 20" by simp
  show "of_int a / 100 - 1 / 8589934592 \<le> x"
    using fl_abs_error(1) [OF u] x by simp
  show "x \<le> of_int a / 100 + 1 / 8589934592"
    using fl_abs_error(2) [OF u] x by simp
qed

text \<open>
  The total the parser stores is the decimal sum of the cells: the binary64 sums are
  within \<open>2 ^ -30\<close> of the sum of the decimals, and the rounding lands on it.
\<close>

lemma total2_decimal:
  assumes "decimal_places 2 x" "decimal_places 2 y" "\<bar>x\<bar> \<le> 8002" "\<bar>y\<bar> \<le> 8002"
  shows "round_100 (fadd x y) = fl (of_int (round (x * 100) + round (y * 100)) / 100)"
proof -
  define a b where "a = round (x * 100)" and "b = round (y * 100)"
  note ra = decimal_repr [OF assms(1,3), folded a_def]
  note rb = decimal_repr [OF assms(2,4), folded b_def]
  have "\<bar>x + y\<bar> \<le> 2 ^ 20" using assms(3,4) by simp
  note s1 = fl_abs_error [OF this, folded fadd_def]
  have "\<bar>fadd x y * 100 - of_int (a + b)\<bar> \<le> 1 / 4"
    unfolding abs_le_iff of_int_add using ra(1,2) rb(1,2) s1 by linarith
  moreover have "\<bar>of_int (a + b) :: real\<bar> \<le> 2 ^ 40" using ra(3) rb(3) by simp
  ultimately show ?thesis unfolding a_def [symmetric] b_def [symmetric] by (rule round_100_near)
qed

lemma total4_decimal:
  assumes "decimal_places 2 x" "decimal_places 2 y" "decimal_places 2 z" "decimal_places 2 w"
    "\<bar>x\<bar> \<le> 8002" "\<bar>y\<bar> \<le> 8002" "\<bar>z\<bar> \<le> 8002" "\<bar>w\<bar> \<le> 8002"
  shows "round_100 (fadd (fadd (fadd x y) z) w) =
     fl (of_int (round (x * 100) + round (y * 100) + round (z * 100) + round (w * 100)) / 100)"
proof -
  define a b c e where "a = round (x * 100)" and "b = round (y * 100)"
    and "c = round (z * 100)" and "e = round (w * 100)"
  note ra = decimal_repr [OF assms(1,5), folded a_def]
  note rb = decimal_repr [OF assms(2,6), folded b_def]
  note rc = decimal_repr [OF assms(3,7), folded c_def]
  note re = decimal_repr [OF assms(4,8), folded e_def]
  define s1 s2 s3 where "s1 = fadd x y" and "s2 = fadd s1 z" and "s3 = fadd s2 w"
  have b: "- 8002 \<le> x" "x \<le> 8002" "- 8002 \<le> y" "y \<le> 8002" "- 8002 \<le> z" "z \<le> 8002"
    "- 8002 \<le> w" "w \<le> 8002"
    using assms(5-8) unfolding abs_le_iff by linarith+
  have "\<bar>x + y\<bar> \<le> 2 ^ 20" using assms(5,6) by simp
  note e1 = fl_abs_error [OF this, folded fadd_def, folded s1_def]
  have "\<bar>s1 + z\<bar> \<le> 1048576" unfolding abs_le_iff using e1 b by linarith
  then have "\<bar>s1 + z\<bar> \<le> 2 ^ 20" by simp
  note e2 = fl_abs_error [OF this, folded fadd_def, folded s2_def]
  have "\<bar>s2 + w\<bar> \<le> 1048576" unfolding abs_le_iff using e1 e2 b by linarith
  then have "\<bar>s2 + w\<bar> \<le> 2 ^ 20" by simp
  note e3 = fl_abs_error [OF this, folded fadd_def, folded s3_def]
  have "\<bar>s3 * 100 - of_int (a + b + c + e)\<bar> \<le> 1 / 4"
    unfolding abs_le_iff of_int_add
    using ra(1,2) rb(1,2) rc(1,2) re(1,2) e1 e2 e3 by linarith
  moreover have "\<bar>of_int (a + b + c + e) :: real\<bar> \<le> 2 ^ 40"
    using ra(3) rb(3) rc(3) re(3) by simp
  ultimately have "round_100 s3 = fl (of_int (a + b + c + e) / 100)" by (rule round_100_near)
  then show ?thesis
    unfolding s3_def s2_def s1_def a_def b_def c_def e_def .
qed


lemma rounding_of_decimal: "rounding_of d x v \<Longrightarrow> decimal_places d v"
  by (simp add: rounding_of_def)

lemma quotient_decimal_100:
  "\<bar>of_int k :: real\<bar> \<le> 2 ^ 50 \<Longrightarrow> decimal_places 2 (fl (of_int k / 100))"
  using quotient_decimal(1) [of k 2] by simp

lemma temperature_rounding:
  "rounding_of 2 (parseTemperature m raw) (round_100 (parseTemperature m raw))"
  "rounding_of 1 (fahrenheit (round_100 (parseTemperature m raw)))
     (round_10 (fahrenheit (round_100 (parseTemperature m raw))))"
proof -
  have c: "rounding_of 2 (parseTemperature m raw) (round_100 (parseTemperature m raw)) \<and>
      \<bar>round_100 (parseTemperature m raw)\<bar> \<le> 4 * 2000 + 2"
    using parseTemperature_bound by (rule round_100_spec) simp
  then show "rounding_of 2 (parseTemperature m raw) (round_100 (parseTemperature m raw))" ..
  from c have "\<bar>fahrenheit (round_100 (parseTemperature m raw))\<bar> \<le> 16 * (4 * 2000 + 2) + 64"
    by (intro fahrenheit_bound) simp
  then have "rounding_of 1 (fahrenheit (round_100 (parseTemperature m raw)))
       (round_10 (fahrenheit (round_100 (parseTemperature m raw)))) \<and>
      \<bar>round_10 (fahrenheit (round_100 (parseTemperature m raw)))\<bar>
        \<le> 4 * (16 * (4 * 2000 + 2) + 64) + 2"
    by (rule round_10_spec) simp
  then show "rounding_of 1 (fahrenheit (round_100 (parseTemperature m raw)))
     (round_10 (fahrenheit (round_100 (parseTemperature m raw))))" ..
qed

lemma weight_rounding:
  "rounding_of 2 (fst (parseWeight m raw)) (round_100 (fst (parseWeight m raw)))"
  "\<bar>round_100 (fst (parseWeight m raw))\<bar> \<le> 8002"
  using round_100_spec [OF parseWeight_bound [of m raw]] by simp_all

lemma round_100_0: "round_100 0 = 0"
  by (simp add: round_100_def fmul_def fdiv_def math_Round_def)

lemma total_decimal_places:
  assumes "\<bar>of_int a :: real\<bar> \<le> 800201" "\<bar>of_int b :: real\<bar> \<le> 800201"
    "\<bar>of_int c :: real\<bar> \<le> 800201" "\<bar>of_int e :: real\<bar> \<le> 800201"
  shows "decimal_places 2 (fl (of_int (a + b + c + e) / 100))"
proof -
  have "\<bar>of_int (a + b + c + e) :: real\<bar> \<le> 2 ^ 50" using assms by simp
  then show ?thesis by (rule quotient_decimal_100)
qed

lemma pair_decimal_places:
  assumes "decimal_places 2 x" "decimal_places 2 y" "\<bar>x\<bar> \<le> 8002" "\<bar>y\<bar> \<le> 8002"
  shows "decimal_places 2 (fl (of_int (round (x * 100) + round (y * 100)) / 100))"
  using total_decimal_places [OF decimal_repr(3) [OF assms(1,3)] decimal_repr(3) [OF assms(2,4)],
      of 0 0]
  by simp

lemma four_decimal_places:
  assumes "decimal_places 2 x" "decimal_places 2 y" "decimal_places 2 z" "decimal_places 2 w"
    "\<bar>x\<bar> \<le> 8002" "\<bar>y\<bar> \<le> 8002" "\<bar>z\<bar> \<le> 8002" "\<bar>w\<bar> \<le> 8002"
  shows "decimal_places 2 (fl (of_int (round (x * 100) + round (y * 100) + round (z * 100) +
     round (w * 100)) / 100))"
  by (rule total_decimal_places [OF decimal_repr(3) [OF assms(1,5)] decimal_repr(3) [OF assms(2,6)]
      decimal_repr(3) [OF assms(3,7)] decimal_repr(3) [OF assms(4,8)]])

lemma weight_pair_decimal:
  fixes data :: "byte list" and r :: Reading
  assumes "\<not> HasWeight r" "WeightLeft r = 0" "WeightRight r = 0" "WeightTotal r = 0"
  defines "r' \<equiv> parse_weight_pair data r"
  shows "decimal_places 2 (WeightLeft r') \<and> decimal_places 2 (WeightRight r') \<and>
     \<bar>WeightLeft r'\<bar> \<le> 8002 \<and> \<bar>WeightRight r'\<bar> \<le> 8002 \<and>
     WeightTotal r' =
       fl (of_int (round (WeightLeft r' * 100) + round (WeightRight r' * 100)) / 100) \<and>
     decimal_places 2 (WeightTotal r') \<and>
     (HasWeight r' \<longrightarrow>
        rounding_of 2 (fst (parseWeight (ModelByte r) (LittleEndian_Uint16 (slice data 10 12))))
          (WeightLeft r') \<and>
        rounding_of 2 (fst (parseWeight (ModelByte r) (LittleEndian_Uint16 (slice data 12 14))))
          (WeightRight r'))"
proof (cases "HasWeight r'")
  case True
  note f = weight_pair_fields(2) [OF assms(1) True [unfolded r'_def], folded r'_def]
  have l: "rounding_of 2 (fst (parseWeight (ModelByte r) (LittleEndian_Uint16 (slice data 10 12))))
      (WeightLeft r')" "\<bar>WeightLeft r'\<bar> \<le> 8002"
    using f weight_rounding by simp_all
  have rr: "rounding_of 2 (fst (parseWeight (ModelByte r) (LittleEndian_Uint16 (slice data 12 14))))
      (WeightRight r')" "\<bar>WeightRight r'\<bar> \<le> 8002"
    using f weight_rounding by simp_all
  have d: "decimal_places 2 (WeightLeft r')" "decimal_places 2 (WeightRight r')"
    using l(1) rr(1) by (simp_all add: rounding_of_decimal)
  have "WeightTotal r' = round_100 (fadd (WeightLeft r') (WeightRight r'))" using f by simp
  also have "\<dots> = fl (of_int (round (WeightLeft r' * 100) + round (WeightRight r' * 100)) / 100)"
    using d l(2) rr(2) by (rule total2_decimal)
  finally have t: "WeightTotal r' =
      fl (of_int (round (WeightLeft r' * 100) + round (WeightRight r' * 100)) / 100)" .
  have "decimal_places 2 (WeightTotal r')"
    unfolding t using d l(2) rr(2) by (rule pair_decimal_places)
  with t show ?thesis using l rr d by simp
next
  case False
  note f = weight_pair_fields(3) [OF False [unfolded r'_def], folded r'_def]
  show ?thesis using False f assms(2-4) by (simp add: decimal_0)
qed

lemma four_cell_decimal:
  fixes data :: "byte list" and r :: Reading
  assumes "\<not> Has4Cell r" "WeightLeft2 r = 0" "WeightRight2 r = 0"
    "decimal_places 2 (WeightLeft r)" "decimal_places 2 (WeightRight r)"
    "\<bar>WeightLeft r\<bar> \<le> 8002" "\<bar>WeightRight r\<bar> \<le> 8002"
    "WeightTotal r =
       fl (of_int (round (WeightLeft r * 100) + round (WeightRight r * 100)) / 100)"
  defines "r' \<equiv> parse_four_cell data r"
  shows "decimal_places 2 (WeightLeft2 r') \<and> decimal_places 2 (WeightRight2 r') \<and>
     WeightTotal r' =
       fl (of_int (round (WeightLeft r * 100) + round (WeightRight r * 100) +
         round (WeightLeft2 r' * 100) + round (WeightRight2 r' * 100)) / 100) \<and>
     decimal_places 2 (WeightTotal r') \<and>
     (Has4Cell r' \<longrightarrow>
        rounding_of 2 (fst (parseWeight (ModelByte r) (LittleEndian_Uint16 (slice data 15 17))))
          (WeightLeft2 r') \<and>
        rounding_of 2 (fst (parseWeight (ModelByte r) (LittleEndian_Uint16 (slice data 17 19))))
          (WeightRight2 r'))"
proof (cases "Has4Cell r'")
  case True
  note f = four_cell_fields(2) [OF assms(1) True [unfolded r'_def], folded r'_def]
  have l: "rounding_of 2 (fst (parseWeight (ModelByte r) (LittleEndian_Uint16 (slice data 15 17))))
      (WeightLeft2 r')" "\<bar>WeightLeft2 r'\<bar> \<le> 8002"
    using f weight_rounding by simp_all
  have rr: "rounding_of 2 (fst (parseWeight (ModelByte r) (LittleEndian_Uint16 (slice data 17 19))))
      (WeightRight2 r')" "\<bar>WeightRight2 r'\<bar> \<le> 8002"
    using f weight_rounding by simp_all
  have d: "decimal_places 2 (WeightLeft2 r')" "decimal_places 2 (WeightRight2 r')"
    using l(1) rr(1) by (simp_all add: rounding_of_decimal)
  have "WeightTotal r' =
      round_100 (fadd (fadd (fadd (WeightLeft r) (WeightRight r)) (WeightLeft2 r'))
        (WeightRight2 r'))"
    using f by simp
  also have "\<dots> = fl (of_int (round (WeightLeft r * 100) + round (WeightRight r * 100) +
         round (WeightLeft2 r' * 100) + round (WeightRight2 r' * 100)) / 100)"
    using assms(4,5) d assms(6,7) l(2) rr(2) by (rule total4_decimal)
  finally have t: "WeightTotal r' =
      fl (of_int (round (WeightLeft r * 100) + round (WeightRight r * 100) +
         round (WeightLeft2 r' * 100) + round (WeightRight2 r' * 100)) / 100)" .
  have "decimal_places 2 (WeightTotal r')"
    unfolding t using assms(4,5) d assms(6,7) l(2) rr(2) by (rule four_decimal_places)
  with t show ?thesis using l rr d by simp
next
  case False
  note f = four_cell_fields(3) [OF False [unfolded r'_def], folded r'_def]
  have "decimal_places 2 (WeightTotal r)"
    unfolding assms(8) using assms(4-7) by (rule pair_decimal_places)
  then show ?thesis using False f assms(2,3,8) by (simp add: decimal_0)
qed

lemma realtime_weight_decimal:
  assumes "decimal_places 2 (RealtimeWeight r)"
  shows "decimal_places 2 (RealtimeWeight (parse_realtime_weight data r))"
proof -
  have "decimal_places 2 (fdiv (fsub (float64_of raw) 32767) 100)" for raw
  proof -
    define k where "k = uint raw - 32767"
    have kk: "real_of_int k = real (unat raw) - 32767" by (simp add: k_def)
    have e: "fsub (float64_of raw) 32767 = of_int k" by (simp add: fsub_32767 k_def)
    have "\<bar>real (unat raw) - 32767\<bar> \<le> 2 ^ 50"
      using real_unat_bounds [of raw] by (simp add: abs_le_iff)
    then have "\<bar>real_of_int k\<bar> \<le> 2 ^ 50" by (simp only: kk)
    then show ?thesis unfolding e fdiv_def by (rule quotient_decimal_100)
  qed
  with assms show ?thesis by (simp add: parse_realtime_weight_def Let_def)
qed


text \<open>
  C5. For every payload of at least 15 bytes, every physical value of the \<open>Reading\<close> is
  stored rounded. Each Celsius temperature is the decoded temperature rounded to two
  places, each Fahrenheit temperature is the conversion of the stored Celsius value
  rounded to one place, each cell weight is the decoded weight rounded to two places, and
  the total is the sum of the four cells' decimals, as a value with two places. Every one
  of these fields, and the realtime weight, has its number of decimal places: it is the
  binary64 number nearest to a decimal with that many places.
\<close>

theorem parseAdvertisement_rounded:
  "15 \<le> length data \<longrightarrow>
     (\<exists>r. parseAdvertisement u now mac rssi data = Inr r \<and>
        rounding_of 2 (parseTemperature (data ! 0) (LittleEndian_Uint16 (slice data 7 9)))
          (TemperatureC r) \<and>
        rounding_of 1 (fahrenheit (TemperatureC r)) (TemperatureF r) \<and>
        (HasRealtime r \<longrightarrow>
           rounding_of 2
             (parseTemperature (data ! 0) (ucast (data ! 3) OR push_bit 8 (ucast (data ! 9))))
             (RealtimeTempC r) \<and>
           rounding_of 1 (fahrenheit (RealtimeTempC r)) (RealtimeTempF r)) \<and>
        (HasWeight r \<longrightarrow>
           rounding_of 2 (fst (parseWeight (data ! 0) (LittleEndian_Uint16 (slice data 10 12))))
             (WeightLeft r) \<and>
           rounding_of 2 (fst (parseWeight (data ! 0) (LittleEndian_Uint16 (slice data 12 14))))
             (WeightRight r)) \<and>
        (Has4Cell r \<longrightarrow>
           rounding_of 2 (fst (parseWeight (data ! 0) (LittleEndian_Uint16 (slice data 15 17))))
             (WeightLeft2 r) \<and>
           rounding_of 2 (fst (parseWeight (data ! 0) (LittleEndian_Uint16 (slice data 17 19))))
             (WeightRight2 r)) \<and>
        WeightTotal r =
          fl (of_int (round (WeightLeft r * 100) + round (WeightRight r * 100) +
            round (WeightLeft2 r * 100) + round (WeightRight2 r * 100)) / 100) \<and>
        decimal_places 2 (TemperatureC r) \<and> decimal_places 1 (TemperatureF r) \<and>
        decimal_places 2 (RealtimeTempC r) \<and> decimal_places 1 (RealtimeTempF r) \<and>
        decimal_places 2 (WeightLeft r) \<and> decimal_places 2 (WeightRight r) \<and>
        decimal_places 2 (WeightLeft2 r) \<and> decimal_places 2 (WeightRight2 r) \<and>
        decimal_places 2 (WeightTotal r) \<and> decimal_places 2 (RealtimeWeight r))"
  (is "_ \<longrightarrow> (\<exists>r. ?P r)")
proof
  assume len: "15 \<le> length data"
  define r1 where "r1 = parse_header data (new_Reading (ToUpper u mac) rssi now)"
  define r2 where "r2 = parse_primary_temperature data r1"
  define r3 where "r3 = parse_realtime_temperature data r2"
  define r4 where "r4 = parse_weight_pair data r3"
  define r5 where "r5 = parse_humidity data r4"
  define r6 where "r6 = parse_extended data r5"
  define r where "r = parse_realtime_weight data r6"
  have res: "parseAdvertisement u now mac rssi data = Inr r"
    using len by (simp add: parseAdvertisement_long r_def r6_def r5_def r4_def r3_def r2_def r1_def)
  have m1: "ModelByte r1 = data ! 0" by (simp add: r1_def header_fields)
  have m2: "ModelByte r2 = data ! 0" by (simp add: r2_def m1)
  have m3: "ModelByte r3 = data ! 0" by (simp add: r3_def m2)
  have m5: "ModelByte r5 = data ! 0" by (simp add: r5_def r4_def m3)
  have z1: "\<not> HasRealtime r1" "RealtimeTempC r1 = 0" "RealtimeTempF r1 = 0"
    "\<not> HasWeight r1" "WeightLeft r1 = 0" "WeightRight r1 = 0" "WeightTotal r1 = 0"
    "\<not> Has4Cell r1" "WeightLeft2 r1 = 0" "WeightRight2 r1 = 0" "RealtimeWeight r1 = 0"
    by (simp_all add: r1_def new_Reading_fields)
  have z2: "\<not> HasRealtime r2" "RealtimeTempC r2 = 0" "RealtimeTempF r2 = 0"
    using z1 by (simp_all add: r2_def)
  have z3: "\<not> HasWeight r3" "WeightLeft r3 = 0" "WeightRight r3 = 0" "WeightTotal r3 = 0"
    using z1 by (simp_all add: r3_def r2_def)
  have z5: "\<not> Has4Cell r5" "WeightLeft2 r5 = 0" "WeightRight2 r5 = 0"
    "WeightLeft r5 = WeightLeft r4" "WeightRight r5 = WeightRight r4"
    "WeightTotal r5 = WeightTotal r4" "RealtimeWeight r6 = 0"
    using z1 by (simp_all add: r6_def r5_def r4_def r3_def r2_def)
  have sel: "TemperatureC r = TemperatureC r2" "TemperatureF r = TemperatureF r2"
    "HasRealtime r = HasRealtime r3" "RealtimeTempC r = RealtimeTempC r3"
    "RealtimeTempF r = RealtimeTempF r3" "HasWeight r = HasWeight r4"
    "WeightLeft r = WeightLeft r4" "WeightRight r = WeightRight r4"
    "Has4Cell r = Has4Cell r6" "WeightLeft2 r = WeightLeft2 r6"
    "WeightRight2 r = WeightRight2 r6" "WeightTotal r = WeightTotal r6"
    by (simp_all add: r_def r6_def r5_def r4_def r3_def)
  have c: "TemperatureC r2 =
      round_100 (parseTemperature (data ! 0) (LittleEndian_Uint16 (slice data 7 9)))"
    and f: "TemperatureF r2 = round_10 (fahrenheit (TemperatureC r2))"
    using primary_temperature_fields [where data = data and r = r1]
    unfolding r2_def [symmetric] m1 by simp_all
  have cr: "rounding_of 2 (parseTemperature (data ! 0) (LittleEndian_Uint16 (slice data 7 9)))
      (TemperatureC r2)"
    unfolding c by (rule temperature_rounding)
  have fr: "rounding_of 1 (fahrenheit (TemperatureC r2)) (TemperatureF r2)"
    unfolding f unfolding c by (rule temperature_rounding)
  have rt: "HasRealtime r3 \<longrightarrow>
      rounding_of 2
        (parseTemperature (data ! 0) (ucast (data ! 3) OR push_bit 8 (ucast (data ! 9))))
        (RealtimeTempC r3) \<and>
      rounding_of 1 (fahrenheit (RealtimeTempC r3)) (RealtimeTempF r3)"
  proof
    assume h: "HasRealtime r3"
    have e: "RealtimeTempC r3 =
        round_100 (parseTemperature (data ! 0)
          (ucast (data ! 3) OR push_bit 8 (ucast (data ! 9))))"
      "RealtimeTempF r3 = round_10 (fahrenheit (RealtimeTempC r3))"
      using realtime_temperature_fields(1) [where data = data and r = r2] z2(1) h
      unfolding r3_def [symmetric] m2 by simp_all
    show "rounding_of 2
        (parseTemperature (data ! 0) (ucast (data ! 3) OR push_bit 8 (ucast (data ! 9))))
        (RealtimeTempC r3) \<and>
      rounding_of 1 (fahrenheit (RealtimeTempC r3)) (RealtimeTempF r3)"
      unfolding e(2) unfolding e(1) by (intro conjI temperature_rounding)
  qed
  have rtd: "decimal_places 2 (RealtimeTempC r3) \<and> decimal_places 1 (RealtimeTempF r3)"
  proof (cases "HasRealtime r3")
    case True
    with rt show ?thesis by (blast intro: rounding_of_decimal)
  next
    case False
    then show ?thesis
      using realtime_temperature_fields(2) [where data = data and r = r2] z2
      unfolding r3_def [symmetric] by (simp add: decimal_0)
  qed
  note w4 = weight_pair_decimal [OF z3, of data, folded r4_def, unfolded m3]
  have w6: "decimal_places 2 (WeightLeft2 r6) \<and> decimal_places 2 (WeightRight2 r6) \<and>
     WeightTotal r6 =
       fl (of_int (round (WeightLeft r4 * 100) + round (WeightRight r4 * 100) +
         round (WeightLeft2 r6 * 100) + round (WeightRight2 r6 * 100)) / 100) \<and>
     decimal_places 2 (WeightTotal r6) \<and>
     (Has4Cell r6 \<longrightarrow>
        rounding_of 2 (fst (parseWeight (data ! 0) (LittleEndian_Uint16 (slice data 15 17))))
          (WeightLeft2 r6) \<and>
        rounding_of 2 (fst (parseWeight (data ! 0) (LittleEndian_Uint16 (slice data 17 19))))
          (WeightRight2 r6))"
  proof (cases "19 \<le> length data")
    case True
    then have e: "Has4Cell r6 = Has4Cell (parse_four_cell data r5)"
      "WeightLeft2 r6 = WeightLeft2 (parse_four_cell data r5)"
      "WeightRight2 r6 = WeightRight2 (parse_four_cell data r5)"
      "WeightTotal r6 = WeightTotal (parse_four_cell data r5)"
      by (simp_all add: r6_def parse_extended_def)
    have "decimal_places 2 (WeightLeft r5)" "decimal_places 2 (WeightRight r5)"
      "\<bar>WeightLeft r5\<bar> \<le> 8002" "\<bar>WeightRight r5\<bar> \<le> 8002"
      "WeightTotal r5 =
         fl (of_int (round (WeightLeft r5 * 100) + round (WeightRight r5 * 100)) / 100)"
      using w4 unfolding z5(4,5,6) by simp_all
    note four_cell_decimal [OF z5(1,2,3) this, of data, unfolded m5 z5(4,5)]
    then show ?thesis unfolding e .
  next
    case False
    then have e: "\<not> Has4Cell r6" "WeightLeft2 r6 = 0" "WeightRight2 r6 = 0"
      "WeightTotal r6 = WeightTotal r4"
      using z5 by (simp_all add: r6_def parse_extended_def)
    have d2: "decimal_places 2 (WeightLeft2 r6)" "decimal_places 2 (WeightRight2 r6)"
      unfolding e by (rule decimal_0)+
    have dt: "decimal_places 2 (WeightTotal r6)" unfolding e(4) using w4 by blast
    have "WeightTotal r4 =
        fl (of_int (round (WeightLeft r4 * 100) + round (WeightRight r4 * 100)) / 100)"
      using w4 by blast
    then have t: "WeightTotal r6 =
       fl (of_int (round (WeightLeft r4 * 100) + round (WeightRight r4 * 100) +
         round (WeightLeft2 r6 * 100) + round (WeightRight2 r6 * 100)) / 100)"
      unfolding e by simp
    show ?thesis using d2 dt t e(1) by blast
  qed
  have rw: "decimal_places 2 (RealtimeWeight r)"
    unfolding r_def using z5(7) by (intro realtime_weight_decimal) (simp add: decimal_0)
  have cd: "decimal_places 2 (TemperatureC r2)" using cr by (rule rounding_of_decimal)
  have fd: "decimal_places 1 (TemperatureF r2)" using fr by (rule rounding_of_decimal)
  have "?P r"
    unfolding sel using res cr fr cd fd rt rtd w4 w6 rw by blast
  then show "\<exists>r. ?P r" ..
qed


lemma legacy_payload:
  "LittleEndian_Uint16 (slice [42, 10, 3, 0, 68, 89, 0, 43, 96, 0, 255, 127, 255, 127, 64] 7 9)
     = 24619"
  by (simp add: LittleEndian_Uint16_def slice_def)

lemma W3_realtime_payload:
  "LittleEndian_Uint16 (slice
     [49, 5, 4, 235, 100, 244, 1, 88, 27, 23, 231, 131, 231, 131, 0, 231, 131, 231, 131, 0, 0]
     10 12) = 33767"
  "LittleEndian_Uint16 (slice
     [49, 5, 4, 235, 100, 244, 1, 88, 27, 23, 231, 131, 231, 131, 0, 231, 131, 231, 131, 0, 0]
     12 14) = 33767"
  "LittleEndian_Uint16 (slice
     [49, 5, 4, 235, 100, 244, 1, 88, 27, 23, 231, 131, 231, 131, 0, 231, 131, 231, 131, 0, 0]
     15 17) = 33767"
  "LittleEndian_Uint16 (slice
     [49, 5, 4, 235, 100, 244, 1, 88, 27, 23, 231, 131, 231, 131, 0, 231, 131, 231, 131, 0, 0]
     17 19) = 33767"
  "(ucast ([49, 5, 4, 235, 100, 244, 1, 88, 27, 23, 231, 131, 231, 131, 0, 231, 131, 231, 131,
       0, 0 :: byte] ! 3) :: uint16) OR
   push_bit 8 (ucast ([49, 5, 4, 235, 100, 244, 1, 88, 27, 23, 231, 131, 231, 131, 0, 231, 131,
       231, 131, 0, 0 :: byte] ! 9)) = 6123"
  by (simp_all add: LittleEndian_Uint16_def slice_def)

lemma parseTemperature_examples:
  "parseTemperature 42 24619 = 24619 / 65536 * 165 - 40"
  "parseTemperature 49 6123 = fl (1123 / 100)"
proof -
  show "parseTemperature 42 24619 = 24619 / 65536 * 165 - 40"
    by (simp add: parseTemperature_def legacyTempModels_iff legacy_formula_exact)
  show "parseTemperature 49 6123 = fl (1123 / 100)"
    by (simp add: parseTemperature_def legacyTempModels_iff fsub_5000 fdiv_def)
qed

theorem parseAdvertisement_rounded_witness:
  "map_sum id TemperatureC (parseAdvertisement id 0 ''A3:42:1B:90:03:00'' 0
     [42, 10, 3, 0, 68, 89, 0, 43, 96, 0, 255, 127, 255, 127, 64]) = Inr (fl (2198 / 100)) \<and>
   map_sum id RealtimeTempC (parseAdvertisement id 0 ''C1:22:33:44:55:66'' 0
     [49, 5, 4, 235, 100, 244, 1, 88, 27, 23, 231, 131, 231, 131, 0, 231, 131, 231, 131, 0, 0])
     = Inr (fl (1123 / 100)) \<and>
   map_sum id WeightLeft (parseAdvertisement id 0 ''C1:22:33:44:55:66'' 0
     [49, 5, 4, 235, 100, 244, 1, 88, 27, 23, 231, 131, 231, 131, 0, 231, 131, 231, 131, 0, 0])
     = Inr 10 \<and>
   map_sum id WeightTotal (parseAdvertisement id 0 ''C1:22:33:44:55:66'' 0
     [49, 5, 4, 235, 100, 244, 1, 88, 27, 23, 231, 131, 231, 131, 0, 231, 131, 231, 131, 0, 0])
     = Inr 40"
proof -
  define th :: "byte list" where
    "th = [42, 10, 3, 0, 68, 89, 0, 43, 96, 0, 255, 127, 255, 127, 64]"
  define w3 :: "byte list" where
    "w3 = [49, 5, 4, 235, 100, 244, 1, 88, 27, 23, 231, 131, 231, 131, 0, 231, 131, 231, 131, 0, 0]"
  have len: "15 \<le> length th" "15 \<le> length w3" "19 \<le> length w3"
    by (simp_all add: th_def w3_def)
  have m: "th ! 0 = 42" "w3 ! 0 = 49" by (simp_all add: th_def w3_def)
  from parseAdvertisement_rounded [of th id 0 "''A3:42:1B:90:03:00''" 0] len(1)
  obtain r where r: "parseAdvertisement id 0 ''A3:42:1B:90:03:00'' 0 th = Inr r"
    and c: "rounding_of 2 (parseTemperature (th ! 0) (LittleEndian_Uint16 (slice th 7 9)))
      (TemperatureC r)"
    by blast
  have "rounding_of 2 (24619 / 65536 * 165 - 40) (TemperatureC r)"
    using c unfolding m unfolding th_def legacy_payload parseTemperature_examples .
  then have "TemperatureC r = fl (of_int 2198 / 10 ^ 2)"
    by (rule rounding_of_near) (simp_all add: abs_le_iff)
  then have a: "map_sum id TemperatureC (parseAdvertisement id 0 ''A3:42:1B:90:03:00'' 0 th)
      = Inr (fl (2198 / 100))"
    using r by simp
  have flags: "map_sum id HasRealtime (parseAdvertisement id 0 ''C1:22:33:44:55:66'' 0 w3) = Inr True"
    "map_sum id HasWeight (parseAdvertisement id 0 ''C1:22:33:44:55:66'' 0 w3) = Inr True"
    "map_sum id Has4Cell (parseAdvertisement id 0 ''C1:22:33:44:55:66'' 0 w3) = Inr True"
    unfolding parsed_HasRealtime [OF len(2)] parsed_HasWeight [OF len(2)]
      parsed_Has4Cell [OF len(3)] m
    unfolding w3_def W3_realtime_payload parseWeight_10kg
    by (simp_all add: legacyTempModels_iff fourCellWeightModels_iff)
  from parseAdvertisement_rounded [of w3 id 0 "''C1:22:33:44:55:66''" 0] len(2) flags
  obtain s where s: "parseAdvertisement id 0 ''C1:22:33:44:55:66'' 0 w3 = Inr s"
    and rt: "rounding_of 2
      (parseTemperature (w3 ! 0) (ucast (w3 ! 3) OR push_bit 8 (ucast (w3 ! 9))))
      (RealtimeTempC s)"
    and wl: "rounding_of 2 (fst (parseWeight (w3 ! 0) (LittleEndian_Uint16 (slice w3 10 12))))
      (WeightLeft s)"
    and wr: "rounding_of 2 (fst (parseWeight (w3 ! 0) (LittleEndian_Uint16 (slice w3 12 14))))
      (WeightRight s)"
    and wl2: "rounding_of 2 (fst (parseWeight (w3 ! 0) (LittleEndian_Uint16 (slice w3 15 17))))
      (WeightLeft2 s)"
    and wr2: "rounding_of 2 (fst (parseWeight (w3 ! 0) (LittleEndian_Uint16 (slice w3 17 19))))
      (WeightRight2 s)"
    and tot: "WeightTotal s =
      fl (of_int (round (WeightLeft s * 100) + round (WeightRight s * 100) +
        round (WeightLeft2 s * 100) + round (WeightRight2 s * 100)) / 100)"
    by auto
  have "rounding_of 2 (fl (of_int 1123 / 100)) (RealtimeTempC s)"
    using rt unfolding m unfolding w3_def W3_realtime_payload parseTemperature_examples by simp
  moreover have "\<bar>fl (of_int 1123 / 100) * 10 ^ 2 - of_int 1123\<bar> \<le> 2 / 5"
    using quotient_near [of 1123 100] by simp
  ultimately have "RealtimeTempC s = fl (of_int 1123 / 10 ^ 2)"
    by (rule rounding_of_near) simp
  then have b: "RealtimeTempC s = fl (1123 / 100)" by simp
  have ten: "v = 10" if "rounding_of 2 10 v" for v
  proof -
    from that have "v = fl (of_int 1000 / 10 ^ 2)" by (rule rounding_of_near) simp_all
    then show ?thesis by simp
  qed
  have w: "WeightLeft s = 10" "WeightRight s = 10" "WeightLeft2 s = 10" "WeightRight2 s = 10"
    using wl wr wl2 wr2 unfolding m unfolding w3_def W3_realtime_payload parseWeight_10kg fst_conv
    by (simp_all add: ten)
  have t: "WeightTotal s = 40" unfolding tot w by simp
  from a b w(1) t s show ?thesis unfolding th_def w3_def by simp
qed

section \<open>The address\<close>

lemma upper_ascii_colon: "is_ascii CHR '':'' \<and> upper_ascii CHR '':'' = CHR '':''"
  by (simp add: is_ascii_def upper_ascii_def)

lemma upper_ascii_digits:
  "list_all (\<lambda>c. is_ascii c \<and> is_upper_hex (upper_ascii c)) ''0123456789ABCDEFabcdef''"
  by (simp add: is_ascii_def is_upper_hex_def upper_ascii_def char_of_def bit_Suc_0_iff)

lemma upper_ascii_hex: "is_hex c \<Longrightarrow> is_ascii c \<and> is_upper_hex (upper_ascii c)"
  using upper_ascii_digits unfolding is_hex_def list_all_iff by blast

lemma colon_octets_upper:
  "colon_octets is_hex s \<Longrightarrow>
   list_all is_ascii s \<and> colon_octets is_upper_hex (map upper_ascii s)"
proof (induction is_hex s rule: colon_octets.induct)
  case (1 a b)
  then show ?case by (simp add: upper_ascii_hex)
next
  case (2 a b c rest)
  then show ?case by (simp add: upper_ascii_hex upper_ascii_colon)
qed simp_all

lemma ToUpper_example: "ToUpper u ''aabbccddeeff'' = ''AABBCCDDEEFF''"
  by (simp add: ToUpper_def is_ascii_def upper_ascii_def char_of_def bit_Suc_0_iff)

text \<open>
  C9, as stated, fails: the parser changes the casing and nothing else. An address given
  without colons comes back upper-cased and still without colons, which is not the
  colon-separated form.
\<close>

theorem address_canonical_counterexample:
  "map_sum id MAC (parseAdvertisement id 0 ''aabbccddeeff'' 0
     [41, 1, 1, 0, 50, 1, 0, 136, 19, 0, 255, 127, 255, 127, 0]) = Inr ''AABBCCDDEEFF'' \<and>
   \<not> canonical_address ''AABBCCDDEEFF''"
  by (simp add: parsed_MAC ToUpper_example canonical_address_def)

text \<open>
  C9, amended. For every payload of at least 15 bytes the \<open>Reading\<close>'s address is
  \<^verbatim>\<open>strings.ToUpper\<close> of the input: on an ASCII input every lower-case letter is replaced
  by its upper-case letter and every other byte is kept, separators included. When the
  input is colon-separated hexadecimal octets in any casing, the address is the canonical
  upper-case colon-separated form, of the same length.
\<close>

theorem parseAdvertisement_address:
  "15 \<le> length data \<longrightarrow>
     (\<exists>r. parseAdvertisement u now mac rssi data = Inr r \<and>
        MAC r = ToUpper u mac \<and>
        (list_all is_ascii mac \<longrightarrow> MAC r = map upper_ascii mac) \<and>
        (colon_octets is_hex mac \<longrightarrow>
           canonical_address (MAC r) \<and> length (MAC r) = length mac))"
proof
  assume len: "15 \<le> length data"
  then obtain r where r: "parseAdvertisement u now mac rssi data = Inr r"
    by (simp add: parseAdvertisement_long)
  with parsed_MAC [OF len, of u now mac rssi] have m: "MAC r = ToUpper u mac" by simp
  have "canonical_address (MAC r) \<and> length (MAC r) = length mac" if "colon_octets is_hex mac"
    using colon_octets_upper [OF that] by (simp add: m ToUpper_def canonical_address_def)
  with r m show "\<exists>r. parseAdvertisement u now mac rssi data = Inr r \<and>
        MAC r = ToUpper u mac \<and>
        (list_all is_ascii mac \<longrightarrow> MAC r = map upper_ascii mac) \<and>
        (colon_octets is_hex mac \<longrightarrow>
           canonical_address (MAC r) \<and> length (MAC r) = length mac)"
    by (simp add: ToUpper_def)
qed

lemma address_example:
  "list_all is_ascii ''aa:bb:cc:dd:ee:ff''"
  "map upper_ascii ''aa:bb:cc:dd:ee:ff'' = ''AA:BB:CC:DD:EE:FF''"
  "colon_octets is_hex ''aa:bb:cc:dd:ee:ff''"
  by (simp_all add: is_ascii_def upper_ascii_def is_hex_def char_of_def bit_Suc_0_iff)

theorem parseAdvertisement_address_witness:
  "map_sum id MAC (parseAdvertisement id 0 ''aa:bb:cc:dd:ee:ff'' 0
     [41, 1, 1, 0, 50, 1, 0, 136, 19, 0, 255, 127, 255, 127, 0, 255, 127, 255, 127, 0, 0])
     = Inr ''AA:BB:CC:DD:EE:FF'' \<and>
   canonical_address ''AA:BB:CC:DD:EE:FF''"
proof -
  define data :: "byte list"
    where "data = [41, 1, 1, 0, 50, 1, 0, 136, 19, 0, 255, 127, 255, 127, 0, 255, 127, 255, 127, 0, 0]"
  have "15 \<le> length data" by (simp add: data_def)
  with parseAdvertisement_address [of data id 0 "''aa:bb:cc:dd:ee:ff''" 0]
  obtain r where r: "parseAdvertisement id 0 ''aa:bb:cc:dd:ee:ff'' 0 data = Inr r"
    and a: "list_all is_ascii ''aa:bb:cc:dd:ee:ff'' \<longrightarrow> MAC r = map upper_ascii ''aa:bb:cc:dd:ee:ff''"
    and c: "colon_octets is_hex ''aa:bb:cc:dd:ee:ff'' \<longrightarrow> canonical_address (MAC r)"
    by blast
  from a have m: "MAC r = ''AA:BB:CC:DD:EE:FF''" by (simp only: address_example simp_thms)
  from c have "canonical_address (MAC r)" by (simp only: address_example simp_thms)
  with r m show ?thesis by (simp add: data_def)
qed

section \<open>The dedup tracker\<close>

lemma seen_isNew: "seen (snd (isNew t mac c)) = (seen t)(mac \<mapsto> c)"
  by (auto simp: isNew_def Let_def)

lemma firstSee_isNew: "firstSee (snd (isNew t mac c)) = firstSee t"
  by (simp add: isNew_def Let_def)

lemma seen_isFirstDiscovery: "seen (snd (isFirstDiscovery t mac)) = seen t"
  by (simp add: isFirstDiscovery_def)

lemma discovered_isFirstDiscovery:
  "lookup_bool (firstSee (snd (isFirstDiscovery t mac'))) mac
     = (lookup_bool (firstSee t) mac \<or> mac' = mac)"
  by (auto simp: isFirstDiscovery_def lookup_bool_def)

lemma run_append: "run t (cs @ ds) = run (run t cs) ds"
  by (induction cs arbitrary: t) simp_all

lemma seen_run_other:
  "\<forall>c. IsNew mac c \<notin> set cs \<Longrightarrow> seen (run t cs) mac = seen t mac"
proof (induction cs arbitrary: t)
  case Nil
  then show ?case by simp
next
  case (Cons a cs)
  then have "seen (run (step t a) cs) mac = seen (step t a) mac" by simp
  moreover have "seen (step t a) mac = seen t mac"
    using Cons.prems by (cases a) (auto simp: seen_isNew seen_isFirstDiscovery)
  ultimately show ?case by simp
qed

lemma seen_run_last:
  "\<forall>c. IsNew mac c \<notin> set post \<Longrightarrow> seen (run t (pre @ IsNew mac l # post)) mac = Some l"
  by (simp add: run_append seen_run_other seen_isNew)

lemma discovered_run:
  "lookup_bool (firstSee (run t cs)) mac
     = (lookup_bool (firstSee t) mac \<or> IsFirstDiscovery mac \<in> set cs)"
proof (induction cs arbitrary: t)
  case Nil
  then show ?case by simp
next
  case (Cons a cs)
  show ?case
    by (cases a) (auto simp: Cons.IH firstSee_isNew discovered_isFirstDiscovery)
qed

text \<open>
  C4. On a tracker that holds no counter for an identity, as after any history without an
  \<open>isNew\<close> call for it, \<open>isNew\<close> returns true and stores the counter. When the stored counter
  equals the counter passed, it returns false and the tracker is unchanged. When the stored
  counter is any other value, lower or higher, it returns true and stores the counter
  passed. The stored counter is the one of the latest \<open>isNew\<close> call for the identity.
\<close>

theorem isNew_admission:
  "(seen t mac = None \<longrightarrow> isNew t mac c = (True, t\<lparr>seen := (seen t)(mac \<mapsto> c)\<rparr>)) \<and>
   (seen t mac = Some c \<longrightarrow> isNew t mac c = (False, t)) \<and>
   (seen t mac = Some l \<longrightarrow> l \<noteq> c \<longrightarrow> isNew t mac c = (True, t\<lparr>seen := (seen t)(mac \<mapsto> c)\<rparr>)) \<and>
   ((\<forall>c'. IsNew mac c' \<notin> set calls) \<longrightarrow>
      isNew (run newTracker calls) mac c =
        (True, (run newTracker calls)\<lparr>seen := (seen (run newTracker calls))(mac \<mapsto> c)\<rparr>)) \<and>
   ((\<forall>c'. IsNew mac c' \<notin> set post) \<longrightarrow>
      seen (run newTracker (pre @ IsNew mac l # post)) mac = Some l)"
proof (intro conjI impI)
  assume "\<forall>c'. IsNew mac c' \<notin> set calls"
  then have "seen (run newTracker calls) mac = None"
    by (simp add: seen_run_other newTracker_def)
  then show "isNew (run newTracker calls) mac c =
        (True, (run newTracker calls)\<lparr>seen := (seen (run newTracker calls))(mac \<mapsto> c)\<rparr>)"
    by (simp add: isNew_def)
next
  assume "\<forall>c'. IsNew mac c' \<notin> set post"
  then show "seen (run newTracker (pre @ IsNew mac l # post)) mac = Some l"
    by (rule seen_run_last)
qed (simp_all add: isNew_def)

theorem isNew_admission_witness:
  "isNew (run newTracker [IsNew ''11:22:33:44:55:66'' 7, IsFirstDiscovery ''AA:BB:CC:DD:EE:FF''])
      ''AA:BB:CC:DD:EE:FF'' 100
    = (True, \<lparr>seen = [''11:22:33:44:55:66'' \<mapsto> 7, ''AA:BB:CC:DD:EE:FF'' \<mapsto> 100],
              firstSee = [''AA:BB:CC:DD:EE:FF'' \<mapsto> True]\<rparr>) \<and>
   isNew \<lparr>seen = [''AA:BB:CC:DD:EE:FF'' \<mapsto> 100], firstSee = Map.empty\<rparr> ''AA:BB:CC:DD:EE:FF'' 100
    = (False, \<lparr>seen = [''AA:BB:CC:DD:EE:FF'' \<mapsto> 100], firstSee = Map.empty\<rparr>) \<and>
   isNew \<lparr>seen = [''AA:BB:CC:DD:EE:FF'' \<mapsto> 100], firstSee = Map.empty\<rparr> ''AA:BB:CC:DD:EE:FF'' 99
    = (True, \<lparr>seen = [''AA:BB:CC:DD:EE:FF'' \<mapsto> 99], firstSee = Map.empty\<rparr>)"
  using
    isNew_admission [of _ "''AA:BB:CC:DD:EE:FF''" 100 _
      "[IsNew ''11:22:33:44:55:66'' 7, IsFirstDiscovery ''AA:BB:CC:DD:EE:FF'']" "[]"]
    isNew_admission [of "\<lparr>seen = [''AA:BB:CC:DD:EE:FF'' \<mapsto> 100], firstSee = Map.empty\<rparr>"
      "''AA:BB:CC:DD:EE:FF''" 100 100 "[]" "[]"]
    isNew_admission [of "\<lparr>seen = [''AA:BB:CC:DD:EE:FF'' \<mapsto> 100], firstSee = Map.empty\<rparr>"
      "''AA:BB:CC:DD:EE:FF''" 99 100 "[]" "[]"]
  by (simp add: newTracker_def isNew_def isFirstDiscovery_def lookup_bool_def fun_upd_twist)

text \<open>
  C10. After any history of calls on a new tracker, \<open>isFirstDiscovery\<close> returns true for an
  identity exactly when the history holds no earlier \<open>isFirstDiscovery\<close> call for it: true
  on the first call, false on every later one. The \<open>isNew\<close> calls in the history do not
  matter: \<open>isNew\<close> leaves the discovery flags as they are, \<open>isFirstDiscovery\<close> leaves the
  counters as they are, and both are total.
\<close>

theorem isFirstDiscovery_once:
  "fst (isFirstDiscovery (run newTracker calls) mac) = (IsFirstDiscovery mac \<notin> set calls) \<and>
   seen (snd (isFirstDiscovery t mac)) = seen t \<and>
   firstSee (snd (isNew t mac' c)) = firstSee t \<and>
   fst (isFirstDiscovery (snd (isNew t mac' c)) mac) = fst (isFirstDiscovery t mac)"
proof (intro conjI)
  have "\<not> lookup_bool (firstSee newTracker) mac"
    by (simp add: newTracker_def lookup_bool_def)
  then have "lookup_bool (firstSee (run newTracker calls)) mac = (IsFirstDiscovery mac \<in> set calls)"
    by (simp add: discovered_run)
  then show "fst (isFirstDiscovery (run newTracker calls) mac) = (IsFirstDiscovery mac \<notin> set calls)"
    by (simp add: isFirstDiscovery_def)
next
  show "fst (isFirstDiscovery (snd (isNew t mac' c)) mac) = fst (isFirstDiscovery t mac)"
    by (simp add: isFirstDiscovery_def firstSee_isNew)
qed (simp_all add: seen_isFirstDiscovery firstSee_isNew)

theorem isFirstDiscovery_once_witness:
  "fst (isFirstDiscovery (run newTracker [IsNew ''AA:BB:CC:DD:EE:FF'' 100]) ''AA:BB:CC:DD:EE:FF'') \<and>
   \<not> fst (isFirstDiscovery
      (run newTracker [IsFirstDiscovery ''AA:BB:CC:DD:EE:FF'', IsNew ''AA:BB:CC:DD:EE:FF'' 101,
         IsFirstDiscovery ''11:22:33:44:55:66'']) ''AA:BB:CC:DD:EE:FF'')"
  using
    isFirstDiscovery_once [of "[IsNew ''AA:BB:CC:DD:EE:FF'' 100]" "''AA:BB:CC:DD:EE:FF''"]
    isFirstDiscovery_once [of "[IsFirstDiscovery ''AA:BB:CC:DD:EE:FF'',
       IsNew ''AA:BB:CC:DD:EE:FF'' 101, IsFirstDiscovery ''11:22:33:44:55:66'']"
       "''AA:BB:CC:DD:EE:FF''"]
  by simp

end
